theory Spec2Isabelle
  imports Main
begin

section \<open>The object store\<close>

text \<open>
  The program of \<^verbatim>\<open>main.py\<close> is a small object graph mutated in place: containers
  (locations, rooms, the player) hold a reference to a Python list of items, items hold a
  reference to their use, a use holds a reference back to its item and to the container
  it believes to own the item. Which objects share which list decides several of the
  properties below, so the model keeps an explicit store: every object and every list is
  an address, and every attribute of a class is a function from addresses to values.
  Python compares items with \<^verbatim>\<open>==\<close>, which is identity for these classes (none
  defines \<^verbatim>\<open>__eq__\<close>); equality of addresses is that identity.
\<close>

type_synonym list_ref = nat
type_synonym container_ref = nat
type_synonym item_ref = nat
type_synonym use_ref = nat

text \<open>
  \<^verbatim>\<open>class Exit\<close>: the target location and a description. Its setters are never called by
  the code modelled here, so an exit is kept as a value.
\<close>

record exit =
  e_to :: container_ref
  e_description :: string

text \<open>
  The callable of an \<^verbatim>\<open>ItemUse\<close>. Every callable of the source prints one line; the
  model lets it read the lists of the store as well, and return the lines it prints.
\<close>

type_synonym effect = "(list_ref \<Rightarrow> item_ref list) \<Rightarrow> string list"

record world =
  item_lists :: "list_ref \<Rightarrow> item_ref list"
  exit_lists :: "list_ref \<Rightarrow> exit list"
  c_name :: "container_ref \<Rightarrow> string"
  c_description :: "container_ref \<Rightarrow> string"
  c_items :: "container_ref \<Rightarrow> list_ref"
  l_exits :: "container_ref \<Rightarrow> list_ref"
  p_location :: "container_ref \<Rightarrow> container_ref option"
  i_name :: "item_ref \<Rightarrow> string"
  i_description :: "item_ref \<Rightarrow> string"
  i_use :: "item_ref \<Rightarrow> use_ref"
  u_name :: "use_ref \<Rightarrow> string"
  u_description :: "use_ref \<Rightarrow> string"
  u_item :: "use_ref \<Rightarrow> item_ref option"
  u_destroy_on_execute :: "use_ref \<Rightarrow> bool"
  u_virtual_location :: "use_ref \<Rightarrow> container_ref option"
  u_execute :: "use_ref \<Rightarrow> effect"
  next_ref :: nat
  stdin :: "string list"
  stdout :: "string list"

text \<open>
  The exceptions that leave the functions of the program. \<^verbatim>\<open>ValueError\<close> is absent: it
  is raised and caught inside \<^verbatim>\<open>remove_item\<close> and inside the two selection loops.
\<close>

datatype error = AttributeError | EOFError | SystemExit

text \<open>
  A call either returns (\<open>Inr\<close>) or raises (\<open>Inl\<close>); the exception comes with the
  store as it was when it was raised, so that what had been printed and mutated before
  remains visible.
\<close>

type_synonym 'a result = "(error \<times> world) + 'a"

section \<open>Console\<close>

text \<open>
  \<^verbatim>\<open>stdout\<close> is the sequence of texts written, one entry for each \<^verbatim>\<open>print\<close> call and
  one for each prompt of \<^verbatim>\<open>input\<close>; \<^verbatim>\<open>stdin\<close> is the lines still to be read. Reading at
  the end of the input raises \<^verbatim>\<open>EOFError\<close>.
\<close>

definition print :: "string \<Rightarrow> world \<Rightarrow> world" where
  "print line s = s\<lparr>stdout := stdout s @ [line]\<rparr>"

definition prints :: "string list \<Rightarrow> world \<Rightarrow> world" where
  "prints lines s = s\<lparr>stdout := stdout s @ lines\<rparr>"

definition input :: "string \<Rightarrow> world \<Rightarrow> (string \<times> world) result" where
  "input prompt_text s =
     (case stdin s of
        [] \<Rightarrow> Inl (EOFError, print prompt_text s)
      | line # rest \<Rightarrow> Inr (line, (print prompt_text s)\<lparr>stdin := rest\<rparr>))"

section \<open>Container, Location, Room\<close>

text \<open>A list display \<^verbatim>\<open>[x, y, ...]\<close> allocates a new list object.\<close>

definition new_item_list :: "item_ref list \<Rightarrow> world \<Rightarrow> list_ref \<times> world" where
  "new_item_list xs s =
     (next_ref s, s\<lparr>item_lists := (item_lists s)(next_ref s := xs), next_ref := next_ref s + 1\<rparr>)"

definition new_exit_list :: "exit list \<Rightarrow> world \<Rightarrow> list_ref \<times> world" where
  "new_exit_list xs s =
     (next_ref s, s\<lparr>exit_lists := (exit_lists s)(next_ref s := xs), next_ref := next_ref s + 1\<rparr>)"

text \<open>\<^verbatim>\<open>Container.__init__\<close> stores the list object it is given, not a copy.\<close>

definition Container_init :: "string \<Rightarrow> string \<Rightarrow> list_ref \<Rightarrow> world \<Rightarrow> container_ref \<times> world" where
  "Container_init name description items s =
     (next_ref s,
      s\<lparr>c_name := (c_name s)(next_ref s := name),
        c_description := (c_description s)(next_ref s := description),
        c_items := (c_items s)(next_ref s := items),
        next_ref := next_ref s + 1\<rparr>)"

definition get_items :: "container_ref \<Rightarrow> world \<Rightarrow> item_ref list" where
  "get_items c s = item_lists s (c_items s c)"

definition add_item :: "container_ref \<Rightarrow> item_ref \<Rightarrow> world \<Rightarrow> world" where
  "add_item c item s =
     s\<lparr>item_lists := (item_lists s)(c_items s c := item_lists s (c_items s c) @ [item])\<rparr>"

text \<open>
  Python's \<^verbatim>\<open>list.remove(x)\<close>: delete the first element equal to \<^verbatim>\<open>x\<close>; \<^verbatim>\<open>None\<close>
  stands for the \<^verbatim>\<open>ValueError\<close> raised when there is none.
\<close>

fun list_remove :: "'a \<Rightarrow> 'a list \<Rightarrow> 'a list option" where
  "list_remove x [] = None"
| "list_remove x (y # ys) =
     (if y = x then Some ys else map_option ((#) y) (list_remove x ys))"

text \<open>\<^verbatim>\<open>Container.remove_item\<close>: the \<^verbatim>\<open>ValueError\<close> is caught and ignored.\<close>

definition remove_item :: "container_ref \<Rightarrow> item_ref \<Rightarrow> world \<Rightarrow> world" where
  "remove_item c item s =
     (case list_remove item (item_lists s (c_items s c)) of
        None \<Rightarrow> s
      | Some ys \<Rightarrow> s\<lparr>item_lists := (item_lists s)(c_items s c := ys)\<rparr>)"

definition Location_init ::
  "string \<Rightarrow> string \<Rightarrow> list_ref \<Rightarrow> list_ref \<Rightarrow> world \<Rightarrow> container_ref \<times> world" where
  "Location_init name description exits items s =
     (case Container_init name description items s of
        (l, s1) \<Rightarrow> (l, s1\<lparr>l_exits := (l_exits s1)(l := exits)\<rparr>))"

definition get_exits :: "container_ref \<Rightarrow> world \<Rightarrow> exit list" where
  "get_exits l s = exit_lists s (l_exits s l)"

definition add_exit :: "container_ref \<Rightarrow> exit \<Rightarrow> world \<Rightarrow> world" where
  "add_exit l ex s =
     s\<lparr>exit_lists := (exit_lists s)(l_exits s l := exit_lists s (l_exits s l) @ [ex])\<rparr>"

text \<open>
  \<^verbatim>\<open>Room.__init__\<close> declares \<^verbatim>\<open>items: List[Item] = []\<close>. Python evaluates a default
  once, when the \<^verbatim>\<open>def\<close> is executed: the default is one list object, at a fixed address,
  used by every call that omits the argument.
\<close>

definition Room_default_items :: list_ref where
  "Room_default_items = 0"

definition Room_init ::
  "string \<Rightarrow> string \<Rightarrow> list_ref \<Rightarrow> list_ref option \<Rightarrow> world \<Rightarrow> container_ref \<times> world" where
  "Room_init name description exits items s =
     Location_init name description exits
       (case items of None \<Rightarrow> Room_default_items | Some r \<Rightarrow> r) s"

section \<open>ItemUse, Item, Fruit\<close>

text \<open>
  \<^verbatim>\<open>ItemUse.__init__\<close>: the item and the virtual location start as \<^verbatim>\<open>None\<close>.
\<close>

definition ItemUse_init :: "string \<Rightarrow> string \<Rightarrow> effect \<Rightarrow> bool \<Rightarrow> world \<Rightarrow> use_ref \<times> world" where
  "ItemUse_init name description execute destroy_on_execute s =
     (next_ref s,
      s\<lparr>u_name := (u_name s)(next_ref s := name),
        u_description := (u_description s)(next_ref s := description),
        u_item := (u_item s)(next_ref s := None),
        u_destroy_on_execute := (u_destroy_on_execute s)(next_ref s := destroy_on_execute),
        u_virtual_location := (u_virtual_location s)(next_ref s := None),
        u_execute := (u_execute s)(next_ref s := execute),
        next_ref := next_ref s + 1\<rparr>)"

definition set_item :: "use_ref \<Rightarrow> item_ref \<Rightarrow> world \<Rightarrow> world" where
  "set_item u item s = s\<lparr>u_item := (u_item s)(u := Some item)\<rparr>"

definition get_virtual_location :: "use_ref \<Rightarrow> world \<Rightarrow> container_ref option" where
  "get_virtual_location u s = u_virtual_location s u"

definition set_virtual_location :: "use_ref \<Rightarrow> container_ref \<Rightarrow> world \<Rightarrow> world" where
  "set_virtual_location u virtual_location s =
     s\<lparr>u_virtual_location := (u_virtual_location s)(u := Some virtual_location)\<rparr>"

text \<open>
  \<^verbatim>\<open>ItemUse.destroy\<close> is \<^verbatim>\<open>self.get_virtual_location().remove_item(self.__item)\<close>. With
  no virtual location the attribute lookup on \<^verbatim>\<open>None\<close> raises \<^verbatim>\<open>AttributeError\<close>. A
  use never bound to an item asks the list to remove \<^verbatim>\<open>None\<close>, which no list of items
  holds: \<^verbatim>\<open>remove_item\<close> then ignores the \<^verbatim>\<open>ValueError\<close> and nothing changes.
\<close>

definition destroy :: "use_ref \<Rightarrow> world \<Rightarrow> world result" where
  "destroy u s =
     (case get_virtual_location u s of
        None \<Rightarrow> Inl (AttributeError, s)
      | Some c \<Rightarrow>
          (case u_item s u of
             None \<Rightarrow> Inr s
           | Some item \<Rightarrow> Inr (remove_item c item s)))"

text \<open>The call \<^verbatim>\<open>self._execute()\<close>: the callable sees the lists as they are now.\<close>

definition call_execute :: "use_ref \<Rightarrow> world \<Rightarrow> world" where
  "call_execute u s = prints (u_execute s u (item_lists s)) s"

definition execute :: "use_ref \<Rightarrow> world \<Rightarrow> world result" where
  "execute u s =
     (if u_destroy_on_execute s u then
        (case destroy u s of
           Inl e \<Rightarrow> Inl e
         | Inr s1 \<Rightarrow> Inr (call_execute u s1))
      else Inr (call_execute u s))"

text \<open>\<^verbatim>\<open>Item.__init__\<close> binds the use to the new item with \<^verbatim>\<open>use.set_item(self)\<close>.\<close>

definition Item_init :: "string \<Rightarrow> string \<Rightarrow> use_ref \<Rightarrow> world \<Rightarrow> item_ref \<times> world" where
  "Item_init name description use s =
     (let item = next_ref s;
          s1 = s\<lparr>i_name := (i_name s)(item := name),
                i_description := (i_description s)(item := description),
                next_ref := next_ref s + 1\<rparr>;
          s2 = set_item use item s1
      in (item, s2\<lparr>i_use := (i_use s2)(item := use)\<rparr>))"

definition get_use :: "item_ref \<Rightarrow> world \<Rightarrow> use_ref" where
  "get_use item s = i_use s item"

definition Fruit_init :: "string \<Rightarrow> world \<Rightarrow> item_ref \<times> world" where
  "Fruit_init name s =
     (case ItemUse_init ''Eat'' (''Eat the '' @ name @ ''.'')
             (\<lambda>_. [''You eat the '' @ name @ ''.'']) True s of
        (u, s1) \<Rightarrow> Item_init name (''A juicy '' @ name @ ''.'') u s1)"

section \<open>Numbers and text\<close>

text \<open>\<^verbatim>\<open>str\<close> of an integer, as the f-strings and \<^verbatim>\<open>print(choice)\<close> use it.\<close>

definition digit_char :: "nat \<Rightarrow> char" where
  "digit_char d = ''0123456789'' ! d"

fun str_nat :: "nat \<Rightarrow> string" where
  "str_nat n = (if n < 10 then [digit_char n] else str_nat (n div 10) @ [digit_char (n mod 10)])"

declare str_nat.simps [simp del]

definition str_int :: "int \<Rightarrow> string" where
  "str_int k = (if k < 0 then CHR ''-'' # str_nat (nat (- k)) else str_nat (nat k))"

text \<open>
  The builtin \<^verbatim>\<open>int\<close>, applied to a line read from the console, is a parameter of
  the two menus: a function from the line to the integer it denotes, or \<open>None\<close> when
  \<^verbatim>\<open>int\<close> raises \<^verbatim>\<open>ValueError\<close>. The properties of the menus are proved for every
  such function.
\<close>

type_synonym int_parser = "string \<Rightarrow> int option"

text \<open>
  \<open>py_int\<close> is \<^verbatim>\<open>int(text)\<close> for a text of characters below 256, one \<^typ>\<open>char\<close> for each
  (the concrete runs below type ASCII lines). White space is stripped at both ends:
  the characters 9 to 13 and 32, and of those above 127 the two that are Unicode
  white space, 133 and 160. Then comes an optional sign, then decimal digits, where
  single underscores may stand between digits. A text with more than 4300 digits is
  refused, as the interpreter's default limit on the conversion has it.
\<close>

definition is_space :: "char \<Rightarrow> bool" where
  "is_space c = ((of_char c :: nat) \<in> {9, 10, 11, 12, 13, 32, 133, 160})"

definition is_digit :: "char \<Rightarrow> bool" where
  "is_digit c = (48 \<le> (of_char c :: nat) \<and> (of_char c :: nat) \<le> 57)"

definition digit_value :: "char \<Rightarrow> nat" where
  "digit_value c = of_char c - 48"

definition strip :: "string \<Rightarrow> string" where
  "strip text = rev (dropWhile is_space (rev (dropWhile is_space text)))"

fun parse_digits :: "string \<Rightarrow> nat \<Rightarrow> nat option" where
  "parse_digits [] acc = Some acc"
| "parse_digits (c # cs) acc =
     (if is_digit c then parse_digits cs (10 * acc + digit_value c)
      else if c = CHR ''_'' \<and> cs \<noteq> [] \<and> is_digit (hd cs) then parse_digits cs acc
      else None)"

definition int_max_str_digits :: nat where
  "int_max_str_digits = 4300"

definition parse_nat :: "string \<Rightarrow> nat option" where
  "parse_nat cs =
     (case cs of
        [] \<Rightarrow> None
      | c # _ \<Rightarrow>
          if is_digit c then
            (case parse_digits cs 0 of
               None \<Rightarrow> None
             | Some n \<Rightarrow> if length (filter is_digit cs) > int_max_str_digits then None else Some n)
          else None)"

definition py_int :: "string \<Rightarrow> int option" where
  "py_int text =
     (case strip text of
        [] \<Rightarrow> None
      | c # cs \<Rightarrow>
          if c = CHR ''-'' then map_option (\<lambda>n. - int n) (parse_nat cs)
          else if c = CHR ''+'' then map_option int (parse_nat cs)
          else map_option int (parse_nat (c # cs)))"

section \<open>Player\<close>

datatype PlayerAction = Quit | Inventory | Take item_ref | Go exit

definition Player_init :: "string \<Rightarrow> string \<Rightarrow> list_ref \<Rightarrow> world \<Rightarrow> container_ref \<times> world" where
  "Player_init name description items s =
     (case Container_init name description items s of
        (p, s1) \<Rightarrow> (p, s1\<lparr>p_location := (p_location s1)(p := None)\<rparr>))"

definition get_location :: "container_ref \<Rightarrow> world \<Rightarrow> container_ref option" where
  "get_location p s = p_location s p"

definition set_location :: "container_ref \<Rightarrow> container_ref \<Rightarrow> world \<Rightarrow> world" where
  "set_location p location s = s\<lparr>p_location := (p_location s)(p := Some location)\<rparr>"

subsection \<open>The inventory menu\<close>

text \<open>The \<^verbatim>\<open>for i, item in enumerate(self.get_items())\<close> loop of \<^verbatim>\<open>enter_inventory\<close>.\<close>

fun print_inventory_entries :: "nat \<Rightarrow> item_ref list \<Rightarrow> world \<Rightarrow> world" where
  "print_inventory_entries i [] s = s"
| "print_inventory_entries i (item # rest) s =
     print_inventory_entries (Suc i) rest
       (prints [''  ('' @ str_nat (i + 2) @ '') '' @ i_name s item,
                ''    '' @ i_description s item,
                ''    '' @ u_description s (get_use item s)] s)"

text \<open>
  The \<^verbatim>\<open>while not choice\<close> loop of \<^verbatim>\<open>enter_inventory\<close>, with \<open>parse_int\<close> for the
  builtin \<^verbatim>\<open>int\<close>. A text that \<^verbatim>\<open>int\<close> rejects and
  a number outside the range both end in the \<^verbatim>\<open>except ValueError\<close> branch with
  \<^verbatim>\<open>choice\<close> being \<^verbatim>\<open>None\<close>, and the loop goes round; an accepted number is at least 1,
  hence true, and the loop ends.
\<close>

function enter_inventory_select :: "int_parser \<Rightarrow> container_ref \<Rightarrow> world \<Rightarrow> (int \<times> world) result" where
  "enter_inventory_select parse_int p s =
     (case input ''> '' s of
        Inl e \<Rightarrow> Inl e
      | Inr (text, s1) \<Rightarrow>
          (case parse_int text of
             None \<Rightarrow>
               enter_inventory_select parse_int p
                 (print (''Invalid choice. Please enter a number between 0 and ''
                           @ str_nat (length (get_items p s1)) @ ''.'') s1)
           | Some choice \<Rightarrow>
               if choice < 1 \<or> choice > int (length (get_items p s1)) + 1 then
                 enter_inventory_select parse_int p
                   (print (''Invalid choice. Please enter a number between 0 and ''
                             @ str_nat (length (get_items p s1)) @ ''.'') s1)
               else Inr (choice, s1)))"
  by pat_completeness auto
termination
  by (relation "measure (\<lambda>(parse_int, p, s). length (stdin s))")
     (auto simp: input_def print_def split: list.splits)

declare enter_inventory_select.simps [simp del]

text \<open>
  \<^verbatim>\<open>enter_inventory\<close>. The test \<^verbatim>\<open>if not ....get_use()\<close> is on an \<^verbatim>\<open>ItemUse\<close> object,
  which is always true in Python, so its branch is never taken.
\<close>

definition enter_inventory :: "int_parser \<Rightarrow> container_ref \<Rightarrow> world \<Rightarrow> world result" where
  "enter_inventory parse_int p s =
     (let s1 = prints [''Inventory:'', ''  (1) Close inventory.''] s;
          s2 = print_inventory_entries 0 (get_items p s1) s1;
          s3 = print ''Enter item number to use or 0 to exit:'' s2
      in case enter_inventory_select parse_int p s3 of
           Inl e \<Rightarrow> Inl e
         | Inr (choice, s4) \<Rightarrow>
             if choice = 1 then Inr s4
             else
               (let s5 = print (str_int choice) s4
                in execute (get_use (get_items p s5 ! nat (choice - 2)) s5) s5))"

subsection \<open>The main menu\<close>

definition print_location :: "container_ref \<Rightarrow> world \<Rightarrow> world result" where
  "print_location p s =
     (case get_location p s of
        None \<Rightarrow> Inl (AttributeError, s)
      | Some location \<Rightarrow>
          Inr (prints [''Location: '' @ c_name s location, c_description s location] s))"

text \<open>The two \<^verbatim>\<open>for\<close> loops of \<^verbatim>\<open>print_and_get_actions\<close>, on \<^verbatim>\<open>(i, actions)\<close> and the store.\<close>

fun items_loop ::
  "item_ref list \<Rightarrow> nat \<times> PlayerAction list \<times> world \<Rightarrow> nat \<times> PlayerAction list \<times> world" where
  "items_loop [] st = st"
| "items_loop (item # rest) (i, actions, s) =
     items_loop rest
       (i + 1, actions @ [Take item],
        prints [''  ('' @ str_nat (i + 1) @ '') '' @ i_name s item,
                ''    '' @ i_description s item] s)"

fun exits_loop ::
  "exit list \<Rightarrow> nat \<times> PlayerAction list \<times> world \<Rightarrow> nat \<times> PlayerAction list \<times> world" where
  "exits_loop [] st = st"
| "exits_loop (ex # rest) (i, actions, s) =
     exits_loop rest
       (i + 1, actions @ [Go ex],
        prints [''  ('' @ str_nat (i + 1) @ '') '' @ c_name s (e_to ex),
                ''    '' @ e_description ex] s)"

definition print_and_get_actions ::
  "container_ref \<Rightarrow> world \<Rightarrow> (PlayerAction list \<times> world) result" where
  "print_and_get_actions p s =
     (let s1 = prints [''Actions:'', ''  (1) Quit'', ''  (2) Inventory'', [], ''Items:''] s
      in case get_location p s1 of
           None \<Rightarrow> Inl (AttributeError, s1)
         | Some location \<Rightarrow>
             (case items_loop (get_items location s1) (2, [Quit, Inventory], s1) of
                (i, actions, s2) \<Rightarrow>
                  (let s3 = (if i = 2 then print ''  (no available items)'' s2 else s2);
                       s4 = prints [[], ''Exits:''] s3
                   in case exits_loop (get_exits location s4) (i, actions, s4) of
                        (j, actions', s5) \<Rightarrow> Inr (actions', s5))))"

text \<open>
  The \<^verbatim>\<open>while not action\<close> loop of \<^verbatim>\<open>prompt\<close>, for a list of \<open>n\<close> actions, with
  \<open>parse_int\<close> for the builtin \<^verbatim>\<open>int\<close>.
\<close>

function prompt_select :: "int_parser \<Rightarrow> nat \<Rightarrow> world \<Rightarrow> (int \<times> world) result" where
  "prompt_select parse_int n s =
     (case input ''> '' s of
        Inl e \<Rightarrow> Inl e
      | Inr (text, s1) \<Rightarrow>
          (case parse_int text of
             None \<Rightarrow>
               prompt_select parse_int n
                 (print (''Invalid choice. Please enter a number between 1 and ''
                           @ str_nat n @ ''.'') s1)
           | Some action \<Rightarrow>
               if action < 1 \<or> action > int n then
                 prompt_select parse_int n
                   (print (''Invalid choice. Please enter a number between 1 and ''
                             @ str_nat n @ ''.'') s1)
               else Inr (action, s1)))"
  by pat_completeness auto
termination
  by (relation "measure (\<lambda>(parse_int, n, s). length (stdin s))")
     (auto simp: input_def print_def split: list.splits)

declare prompt_select.simps [simp del]

text \<open>The \<^verbatim>\<open>match action_type\<close> statement of \<^verbatim>\<open>prompt\<close>; \<^verbatim>\<open>exit()\<close> raises \<^verbatim>\<open>SystemExit\<close>.\<close>

fun prompt_dispatch :: "int_parser \<Rightarrow> container_ref \<Rightarrow> PlayerAction \<Rightarrow> world \<Rightarrow> world result" where
  "prompt_dispatch parse_int p Quit s = Inl (SystemExit, print ''Goodbye!'' s)"
| "prompt_dispatch parse_int p Inventory s = enter_inventory parse_int p s"
| "prompt_dispatch parse_int p (Take action_object) s =
     (let s1 = print (''You take the '' @ i_name s action_object @ ''.'') s
      in case get_location p s1 of
           None \<Rightarrow> Inl (AttributeError, s1)
         | Some location \<Rightarrow>
             (let s2 = remove_item location action_object s1;
                  s3 = add_item p action_object s2
              in Inr (set_virtual_location (get_use action_object s3) p s3)))"
| "prompt_dispatch parse_int p (Go action_object) s =
     Inr (set_location p (e_to action_object)
            (print (''You go to the '' @ c_name s (e_to action_object) @ ''.'') s))"

text \<open>One execution of the body of \<^verbatim>\<open>prompt\<close>, up to its last line.\<close>

definition prompt_turn :: "int_parser \<Rightarrow> container_ref \<Rightarrow> world \<Rightarrow> world result" where
  "prompt_turn parse_int p s =
     (case print_location p (print (replicate 30 CHR ''='') s) of
        Inl e \<Rightarrow> Inl e
      | Inr s1 \<Rightarrow>
          (case print_and_get_actions p (print [] s1) of
             Inl e \<Rightarrow> Inl e
           | Inr (actions, s2) \<Rightarrow>
               (case prompt_select parse_int (length actions)
                       (prints [[], ''What would you like to do?''] s2) of
                  Inl e \<Rightarrow> Inl e
                | Inr (action, s3) \<Rightarrow> prompt_dispatch parse_int p (actions ! nat (action - 1)) s3)))"

text \<open>
  \<^verbatim>\<open>prompt\<close> itself: the body, then \<^verbatim>\<open>self.prompt()\<close>. It never returns; the value is
  the exception that ends the game (\<^verbatim>\<open>SystemExit\<close> after Quit, or one of the others)
  with the store at that moment. Every turn reads at least one line, so on a finite
  input the recursion ends, at the latest with \<^verbatim>\<open>EOFError\<close>. The interpreter's limit
  on the depth of recursion is not modelled.
\<close>

function prompt :: "int_parser \<Rightarrow> container_ref \<Rightarrow> world \<Rightarrow> error \<times> world" where
  "prompt parse_int p s = (case prompt_turn parse_int p s of Inl e \<Rightarrow> e | Inr s' \<Rightarrow> prompt parse_int p s')"
  by pat_completeness auto

definition create_twoway_link :: "container_ref \<Rightarrow> container_ref \<Rightarrow> world \<Rightarrow> world" where
  "create_twoway_link from_location to_location s =
     (let s1 = add_exit from_location
                 \<lparr>e_to = to_location,
                  e_description = ''Go to the '' @ c_name s to_location @ ''.''\<rparr> s
      in add_exit to_location
           \<lparr>e_to = from_location,
            e_description = ''Go to the '' @ c_name s1 from_location @ ''.''\<rparr> s1)"

section \<open>Worlds\<close>

text \<open>
  The store once the class and function definitions of the module have been executed:
  the only object is the default list of \<^verbatim>\<open>Room.__init__\<close>, empty, at its address. The
  argument is the text waiting on standard input.
\<close>

definition loaded :: "string list \<Rightarrow> world" where
  "loaded lines =
     \<lparr>item_lists = (\<lambda>_. []), exit_lists = (\<lambda>_. []),
      c_name = (\<lambda>_. []), c_description = (\<lambda>_. []), c_items = (\<lambda>_. 0),
      l_exits = (\<lambda>_. 0), p_location = (\<lambda>_. None),
      i_name = (\<lambda>_. []), i_description = (\<lambda>_. []), i_use = (\<lambda>_. 0),
      u_name = (\<lambda>_. []), u_description = (\<lambda>_. []), u_item = (\<lambda>_. None),
      u_destroy_on_execute = (\<lambda>_. False), u_virtual_location = (\<lambda>_. None),
      u_execute = (\<lambda>_ _. []),
      next_ref = Room_default_items + 1, stdin = lines, stdout = []\<rparr>"

text \<open>
  The store that the main block's way of building a world gives, cut down to the lounge
  with the crown and the hall:
  \<^verbatim>\<open>crown = Item('Crown', 'A golden crown.', ItemUse('Wear', 'Wear the crown.', ..., True))\<close>,
  \<^verbatim>\<open>lounge = Room('Lounge', d0, [], [crown])\<close>, \<^verbatim>\<open>hall = Location('Hall', d1, [], [])\<close>,
  \<^verbatim>\<open>create_twoway_link(lounge, hall)\<close>, \<^verbatim>\<open>player = Player('Ann', 'You are you.', [])\<close>,
  \<^verbatim>\<open>player.set_location(lounge)\<close>. Addresses in the order of allocation: the use 1, the
  crown 2, the lounge's exit list 3 and item list 4, the lounge 5, the hall's lists 6 and 7,
  the hall 8, the player's item list 9, the player 10.
\<close>

definition small_world :: "string list \<Rightarrow> world" where
  "small_world lines =
     \<lparr>item_lists = (\<lambda>_. [])(4 := [2]),
      exit_lists = (\<lambda>_. [])(3 := [\<lparr>e_to = 8, e_description = ''Go to the Hall.''\<rparr>],
                              6 := [\<lparr>e_to = 5, e_description = ''Go to the Lounge.''\<rparr>]),
      c_name = (\<lambda>_. [])(5 := ''Lounge'', 8 := ''Hall'', 10 := ''Ann''),
      c_description = (\<lambda>_. [])(5 := ''A homely lounge.'', 8 := ''A narrow hall.'',
                                 10 := ''You are you.''),
      c_items = (\<lambda>_. 0)(5 := 4, 8 := 7, 10 := 9),
      l_exits = (\<lambda>_. 0)(5 := 3, 8 := 6),
      p_location = (\<lambda>_. None)(10 := Some 5),
      i_name = (\<lambda>_. [])(2 := ''Crown''),
      i_description = (\<lambda>_. [])(2 := ''A golden crown.''),
      i_use = (\<lambda>_. 0)(2 := 1),
      u_name = (\<lambda>_. [])(1 := ''Wear''),
      u_description = (\<lambda>_. [])(1 := ''Wear the crown.''),
      u_item = (\<lambda>_. None)(1 := Some 2),
      u_destroy_on_execute = (\<lambda>_. False)(1 := True),
      u_virtual_location = (\<lambda>_. None),
      u_execute = (\<lambda>_ _. [])(1 := (\<lambda>_. [''You put the crown on your head.''])),
      next_ref = 11, stdin = lines, stdout = []\<rparr>"

section \<open>Vocabulary of the properties\<close>

text \<open>
  Two stores hold the same objects when they differ at most in the console: what is
  waiting on standard input and what has been written.
\<close>

definition same_objects :: "world \<Rightarrow> world \<Rightarrow> bool" where
  "same_objects s s' =
     (item_lists s' = item_lists s \<and> exit_lists s' = exit_lists s \<and>
      c_name s' = c_name s \<and> c_description s' = c_description s \<and>
      c_items s' = c_items s \<and> l_exits s' = l_exits s \<and> p_location s' = p_location s \<and>
      i_name s' = i_name s \<and> i_description s' = i_description s \<and> i_use s' = i_use s \<and>
      u_name s' = u_name s \<and> u_description s' = u_description s \<and> u_item s' = u_item s \<and>
      u_destroy_on_execute s' = u_destroy_on_execute s \<and>
      u_virtual_location s' = u_virtual_location s \<and> u_execute s' = u_execute s \<and>
      next_ref s' = next_ref s)"

text \<open>
  The specification's test on a selection typed at a menu of \<open>n\<close> entries: the line
  parses as an integer (\<^verbatim>\<open>int\<close> returns) between 1 and \<open>n\<close>.
\<close>

definition accepted :: "int_parser \<Rightarrow> nat \<Rightarrow> string \<Rightarrow> bool" where
  "accepted parse_int n ln = (case parse_int ln of None \<Rightarrow> False | Some k \<Rightarrow> 1 \<le> k \<and> k \<le> int n)"

text \<open>The message of the main menu for a rejected line.\<close>

definition prompt_invalid :: "nat \<Rightarrow> string" where
  "prompt_invalid n = ''Invalid choice. Please enter a number between 1 and '' @ str_nat n @ ''.''"

text \<open>What the loop writes for the lines it rejects, and for the line it then reads.\<close>

definition prompt_transcript :: "nat \<Rightarrow> string list \<Rightarrow> string list" where
  "prompt_transcript n bad = concat (map (\<lambda>_. [''> '', prompt_invalid n]) bad) @ [''> '']"

text \<open>The message of the inventory menu for a rejected line, and what its loop writes.\<close>

definition inventory_invalid :: "nat \<Rightarrow> string" where
  "inventory_invalid n = ''Invalid choice. Please enter a number between 0 and '' @ str_nat n @ ''.''"

definition inventory_transcript :: "nat \<Rightarrow> string list \<Rightarrow> string list" where
  "inventory_transcript n bad = concat (map (\<lambda>_. [''> '', inventory_invalid n]) bad) @ [''> '']"

text \<open>The store a call ends with, whether it returns or raises.\<close>

definition final :: "world result \<Rightarrow> world" where
  "final r = (case r of Inl (e, s) \<Rightarrow> s | Inr s \<Rightarrow> s)"

text \<open>The store in which \<^verbatim>\<open>enter_inventory\<close> starts its selection loop.\<close>

definition inventory_shown :: "container_ref \<Rightarrow> world \<Rightarrow> world" where
  "inventory_shown p s =
     print ''Enter item number to use or 0 to exit:''
       (print_inventory_entries 0 (get_items p (prints [''Inventory:'', ''  (1) Close inventory.''] s))
          (prints [''Inventory:'', ''  (1) Close inventory.''] s))"

section \<open>Containers\<close>

lemma list_remove_absent: "x \<notin> set xs \<Longrightarrow> list_remove x xs = None"
  by (induction xs) auto

lemma list_remove_first:
  "x \<notin> set xs \<Longrightarrow> list_remove x (xs @ x # ys) = Some (xs @ ys)"
  by (induction xs) auto

lemma list_remove_remove1:
  "list_remove x xs = (if x \<in> set xs then Some (remove1 x xs) else None)"
  by (induction xs) auto

text \<open>
  Claim C7. \<^verbatim>\<open>remove_item\<close> never raises: it is a total function on stores. For an
  item that is not in the container's list the store is left exactly as it was. For an
  item that is, the entry removed is the first one equal to it (the list is
  \<open>xs @ item # ys\<close> with no occurrence in \<open>xs\<close>): the list becomes \<open>xs @ ys\<close>, and
  nothing else in the store changes.
\<close>

theorem remove_item_absent_or_first:
  "(item \<notin> set (get_items c s) \<longrightarrow> remove_item c item s = s) \<and>
   (get_items c s = xs @ item # ys \<and> item \<notin> set xs \<longrightarrow>
      remove_item c item s = s\<lparr>item_lists := (item_lists s)(c_items s c := xs @ ys)\<rparr> \<and>
      get_items c (remove_item c item s) = xs @ ys)"
  by (auto simp: remove_item_def get_items_def list_remove_absent list_remove_first)

theorem remove_item_absent_or_first_witness:
  "(7 \<notin> set (get_items 5 (small_world [])) \<and>
      remove_item 5 7 (small_world []) = small_world []) \<and>
   (get_items 10 (add_item 10 7 (add_item 10 2 (add_item 10 7 (small_world [])))) = [7] @ 2 # [7] \<and>
    2 \<notin> set [7 :: nat] \<and>
    get_items 10 (remove_item 10 2 (add_item 10 7 (add_item 10 2 (add_item 10 7 (small_world []))))) =
      [7, 7])"
proof -
  let ?w = "add_item 10 7 (add_item 10 2 (add_item 10 7 (small_world [])))"
  have a: "7 \<notin> set (get_items 5 (small_world []))"
    by (simp add: get_items_def small_world_def)
  have b: "get_items 10 ?w = [7] @ 2 # [7]"
    by (simp add: get_items_def add_item_def small_world_def)
  from remove_item_absent_or_first [of 7 5 "small_world []"] a
  have c: "remove_item 5 7 (small_world []) = small_world []" by simp
  note t = remove_item_absent_or_first
    [where item = 2 and c = 10 and s = ?w and xs = "[7]" and ys = "[7]"]
  have d: "get_items 10 (remove_item 10 2 ?w) = [7] @ [7]"
    by (rule conjunct2 [OF mp [OF conjunct2 [OF t]]]) (simp add: b)
  from a b c d show ?thesis by simp
qed

section \<open>The console and the two selection loops\<close>

lemma same_objects_refl: "same_objects s s"
  by (simp add: same_objects_def)

lemma same_objects_trans: "same_objects s s1 \<Longrightarrow> same_objects s1 s2 \<Longrightarrow> same_objects s s2"
  by (simp add: same_objects_def)

lemma same_objects_print: "same_objects s (print line s)"
  by (simp add: same_objects_def print_def)

lemma same_objects_prints: "same_objects s (prints lines s)"
  by (simp add: same_objects_def prints_def)

lemma same_objects_get_items: "same_objects s s' \<Longrightarrow> get_items c s' = get_items c s"
  by (simp add: same_objects_def get_items_def)

lemma same_objects_get_exits: "same_objects s s' \<Longrightarrow> get_exits c s' = get_exits c s"
  by (simp add: same_objects_def get_exits_def)

lemma input_Inr:
  "input t s = Inr (line, s') \<Longrightarrow> same_objects s s' \<and> stdin s = line # stdin s' \<and> stdout s' = stdout s @ [t]"
  by (auto simp: input_def print_def same_objects_def split: list.splits)

lemma input_Inl:
  "input t s = Inl (e, s') \<Longrightarrow> e = EOFError \<and> s' = print t s \<and> stdin s = []"
  by (auto simp: input_def split: list.splits)


lemma prompt_select_Nil:
  "stdin s = [] \<Longrightarrow> prompt_select parse_int n s = Inl (EOFError, print ''> '' s)"
  by (subst prompt_select.simps) (simp add: input_def)

lemma prompt_select_Cons:
  "stdin s = ln # rest \<Longrightarrow>
   prompt_select parse_int n s =
     (if accepted parse_int n ln then Inr (the (parse_int ln), (print ''> '' s)\<lparr>stdin := rest\<rparr>)
      else prompt_select parse_int n (print (prompt_invalid n) ((print ''> '' s)\<lparr>stdin := rest\<rparr>)))"
  by (subst prompt_select.simps)
     (auto simp add: input_def accepted_def prompt_invalid_def split: option.splits)

lemma prompt_select_Inr:
  "stdin s = ls \<Longrightarrow> prompt_select parse_int n s = Inr (k, s') \<Longrightarrow>
     same_objects s s' \<and> 1 \<le> k \<and> k \<le> int n \<and> length (stdin s') < length ls"
proof (induction ls arbitrary: s)
  case Nil
  then show ?case by (simp add: prompt_select_Nil)
next
  case (Cons ln rest)
  let ?s1 = "(print ''> '' s)\<lparr>stdin := rest\<rparr>"
  have s1: "same_objects s ?s1" by (simp add: same_objects_def print_def)
  show ?case
  proof (cases "accepted parse_int n ln")
    case True
    with Cons.prems have "k = the (parse_int ln)" "s' = ?s1"
      by (simp_all add: prompt_select_Cons)
    with True s1 show ?thesis
      by (auto simp: accepted_def print_def split: option.splits)
  next
    case False
    let ?s2 = "print (prompt_invalid n) ?s1"
    have s2: "same_objects s ?s2" "stdin ?s2 = rest"
      by (simp_all add: same_objects_def print_def)
    from False Cons.prems have "prompt_select parse_int n ?s2 = Inr (k, s')"
      by (simp add: prompt_select_Cons)
    from Cons.IH [OF s2(2) this] have "same_objects ?s2 s'" "1 \<le> k" "k \<le> int n" "length (stdin s') < length rest"
      by simp_all
    with same_objects_trans [OF s2(1)] show ?thesis by simp
  qed
qed


lemma prompt_select_Inl:
  "stdin s = ls \<Longrightarrow> prompt_select parse_int n s = Inl (e, s') \<Longrightarrow>
     e = EOFError \<and> same_objects s s' \<and> stdin s' = []"
proof (induction ls arbitrary: s)
  case Nil
  then show ?case by (auto simp: prompt_select_Nil same_objects_def print_def)
next
  case (Cons ln rest)
  let ?s2 = "print (prompt_invalid n) ((print ''> '' s)\<lparr>stdin := rest\<rparr>)"
  have s2: "same_objects s ?s2" "stdin ?s2 = rest"
    by (simp_all add: same_objects_def print_def)
  from Cons.prems have "prompt_select parse_int n ?s2 = Inl (e, s')"
    by (simp add: prompt_select_Cons split: if_splits)
  from Cons.IH [OF s2(2) this] same_objects_trans [OF s2(1)] show ?case by simp
qed

lemma prompt_select_run:
  "stdin s = ls \<Longrightarrow>
   prompt_select parse_int n s =
     (case dropWhile (\<lambda>ln. \<not> accepted parse_int n ln) ls of
        [] \<Rightarrow>
          Inl (EOFError,
               s\<lparr>stdin := [],
                 stdout := stdout s @ prompt_transcript n (takeWhile (\<lambda>ln. \<not> accepted parse_int n ln) ls)\<rparr>)
      | good # rest \<Rightarrow>
          Inr (the (parse_int good),
               s\<lparr>stdin := rest,
                 stdout := stdout s @ prompt_transcript n (takeWhile (\<lambda>ln. \<not> accepted parse_int n ln) ls)\<rparr>))"
proof (induction ls arbitrary: s)
  case Nil
  then show ?case by (simp add: prompt_select_Nil print_def prompt_transcript_def)
next
  case (Cons ln rest)
  show ?case
  proof (cases "accepted parse_int n ln")
    case True
    with Cons.prems show ?thesis
      by (simp add: prompt_select_Cons print_def prompt_transcript_def)
  next
    case False
    let ?s2 = "print (prompt_invalid n) ((print ''> '' s)\<lparr>stdin := rest\<rparr>)"
    have s2: "stdin ?s2 = rest" by (simp add: print_def)
    from False Cons.prems have "prompt_select parse_int n s = prompt_select parse_int n ?s2"
      by (simp add: prompt_select_Cons)
    also note Cons.IH [OF s2]
    finally have eq: "prompt_select parse_int n s =
      (case dropWhile (\<lambda>ln. \<not> accepted parse_int n ln) rest of
         [] \<Rightarrow>
           Inl (EOFError,
                ?s2\<lparr>stdin := [],
                  stdout := stdout ?s2 @ prompt_transcript n (takeWhile (\<lambda>ln. \<not> accepted parse_int n ln) rest)\<rparr>)
       | good # rest' \<Rightarrow>
           Inr (the (parse_int good),
                ?s2\<lparr>stdin := rest',
                  stdout := stdout ?s2 @ prompt_transcript n (takeWhile (\<lambda>ln. \<not> accepted parse_int n ln) rest)\<rparr>))" .
    show ?thesis
    proof (cases "dropWhile (\<lambda>ln. \<not> accepted parse_int n ln) rest")
      case Nil
      with eq False show ?thesis
        by (simp add: print_def prompt_transcript_def del: dropWhile_eq_Nil_conv)
    next
      case (Cons good rest')
      with eq False show ?thesis by (simp add: print_def prompt_transcript_def)
    qed
  qed
qed

lemma items_loop_eq:
  "\<exists>s'. items_loop xs (i, acts, s) = (i + length xs, acts @ map Take xs, s') \<and>
        same_objects s s' \<and> stdin s' = stdin s"
proof (induction xs arbitrary: i acts s)
  case Nil
  show ?case by (simp add: same_objects_refl)
next
  case (Cons x xs)
  let ?s1 = "prints [''  ('' @ str_nat (i + 1) @ '') '' @ i_name s x, ''    '' @ i_description s x] s"
  from Cons.IH [of "i + 1" "acts @ [Take x]" ?s1]
  obtain s' where s': "items_loop xs (i + 1, acts @ [Take x], ?s1) = (i + 1 + length xs, (acts @ [Take x]) @ map Take xs, s')"
    "same_objects ?s1 s'" "stdin s' = stdin ?s1" by blast
  have "same_objects s s'" using same_objects_trans [OF same_objects_prints s'(2)] .
  with s' show ?case by (simp add: prints_def)
qed

lemma exits_loop_eq:
  "\<exists>s'. exits_loop xs (i, acts, s) = (i + length xs, acts @ map Go xs, s') \<and>
        same_objects s s' \<and> stdin s' = stdin s"
proof (induction xs arbitrary: i acts s)
  case Nil
  show ?case by (simp add: same_objects_refl)
next
  case (Cons x xs)
  let ?s1 = "prints [''  ('' @ str_nat (i + 1) @ '') '' @ c_name s (e_to x), ''    '' @ e_description x] s"
  from Cons.IH [of "i + 1" "acts @ [Go x]" ?s1]
  obtain s' where s': "exits_loop xs (i + 1, acts @ [Go x], ?s1) = (i + 1 + length xs, (acts @ [Go x]) @ map Go xs, s')"
    "same_objects ?s1 s'" "stdin s' = stdin ?s1" by blast
  have "same_objects s s'" using same_objects_trans [OF same_objects_prints s'(2)] .
  with s' show ?case by (simp add: prints_def)
qed

lemma print_and_get_actions_eq:
  assumes "get_location p s = Some l"
  shows "\<exists>s'. print_and_get_actions p s =
              Inr ([Quit, Inventory] @ map Take (get_items l s) @ map Go (get_exits l s), s') \<and>
            same_objects s s' \<and> stdin s' = stdin s"
proof -
  let ?s1 = "prints [''Actions:'', ''  (1) Quit'', ''  (2) Inventory'', [], ''Items:''] s"
  have s1: "same_objects s ?s1" "stdin ?s1 = stdin s" "get_location p ?s1 = Some l"
    using assms by (simp_all add: same_objects_def prints_def get_location_def)
  obtain s2 where s2:
    "items_loop (get_items l ?s1) (2, [Quit, Inventory], ?s1) =
       (2 + length (get_items l ?s1), [Quit, Inventory] @ map Take (get_items l ?s1), s2)"
    "same_objects ?s1 s2" "stdin s2 = stdin ?s1"
    using items_loop_eq by blast
  let ?s3 = "if 2 + length (get_items l ?s1) = 2 then print ''  (no available items)'' s2 else s2"
  let ?s4 = "prints [[], ''Exits:''] ?s3"
  have s4: "same_objects s2 ?s4" "stdin ?s4 = stdin s2"
    by (simp_all add: same_objects_def prints_def print_def)
  obtain s5 where s5:
    "exits_loop (get_exits l ?s4) (2 + length (get_items l ?s1), [Quit, Inventory] @ map Take (get_items l ?s1), ?s4) =
       (2 + length (get_items l ?s1) + length (get_exits l ?s4),
        ([Quit, Inventory] @ map Take (get_items l ?s1)) @ map Go (get_exits l ?s4), s5)"
    "same_objects ?s4 s5" "stdin s5 = stdin ?s4"
    using exits_loop_eq by blast
  have so4: "same_objects s ?s4"
    using same_objects_trans [OF same_objects_trans [OF s1(1) s2(2)] s4(1)] .
  have so5: "same_objects s s5" using same_objects_trans [OF so4 s5(2)] .
  have gi: "get_items l ?s1 = get_items l s" using same_objects_get_items [OF s1(1)] .
  have ge: "get_exits l ?s4 = get_exits l s" using same_objects_get_exits [OF so4] .
  have "print_and_get_actions p s =
          Inr (([Quit, Inventory] @ map Take (get_items l ?s1)) @ map Go (get_exits l ?s4), s5)"
    unfolding print_and_get_actions_def Let_def using s1(3) s2(1) s5(1) by simp
  with gi ge so5 s5(3) s4(2) s2(3) s1(2) show ?thesis by simp
qed


section \<open>The action list\<close>

text \<open>
  Claim C4. With the player at a location, \<^verbatim>\<open>print_and_get_actions\<close> returns exactly
  \<open>Quit\<close>, \<open>Inventory\<close>, one \<open>Take\<close> for each item of the location in the order of its
  item list, then one \<open>Go\<close> for each exit in the order of its exit list; position \<open>k\<close>
  of the list (from 0) is the entry printed with number \<open>k + 1\<close>. The call only prints.
\<close>

theorem print_and_get_actions_enumerates:
  assumes "get_location p s = Some l"
  shows "\<exists>s'. print_and_get_actions p s =
              Inr ([Quit, Inventory] @ map Take (get_items l s) @ map Go (get_exits l s), s') \<and>
            same_objects s s'"
  using print_and_get_actions_eq [OF assms] by blast

theorem print_and_get_actions_enumerates_witness:
  "get_location 10 (small_world []) = Some 5 \<and>
   (\<exists>s'. print_and_get_actions 10 (small_world []) =
      Inr ([Quit, Inventory, Take 2, Go \<lparr>e_to = 8, e_description = ''Go to the Hall.''\<rparr>], s'))"
proof -
  have a: "get_location 10 (small_world []) = Some 5"
    by (simp add: get_location_def small_world_def)
  have b: "get_items 5 (small_world []) = [2]"
    "get_exits 5 (small_world []) = [\<lparr>e_to = 8, e_description = ''Go to the Hall.''\<rparr>]"
    by (simp_all add: get_items_def get_exits_def small_world_def)
  from print_and_get_actions_enumerates [OF a] b a show ?thesis by auto
qed


lemma py_int_examples:
  "py_int ''0'' = Some 0" "py_int ''1'' = Some 1" "py_int ''2'' = Some 2" "py_int ''3'' = Some 3"
  "py_int ''6'' = Some 6" "py_int ''abc'' = None"
  by (simp_all add: py_int_def strip_def is_space_def parse_nat_def is_digit_def digit_value_def
      int_max_str_digits_def)


section \<open>One turn of the main menu\<close>

lemma print_location_eq:
  "get_location p s = Some l \<Longrightarrow>
   print_location p s = Inr (prints [''Location: '' @ c_name s l, c_description s l] s)"
  by (simp add: print_location_def)

lemma stdin_stdout_commute:
  "(s :: world)\<lparr>stdout := b, stdin := a\<rparr> = s\<lparr>stdin := a, stdout := b\<rparr>"
  by (cases s) simp

lemma prompt_turn_run:
  assumes loc: "get_location p s = Some l"
    and acts: "acts = [Quit, Inventory] @ map Take (get_items l s) @ map Go (get_exits l s)"
  shows "\<exists>s1. same_objects s s1 \<and>
           prompt_turn parse_int p s =
             (case dropWhile (\<lambda>ln. \<not> accepted parse_int (length acts) ln) (stdin s) of
                [] \<Rightarrow> Inl (EOFError, s1)
              | good # rest \<Rightarrow>
                  prompt_dispatch parse_int p (acts ! nat (the (parse_int good) - 1)) (s1\<lparr>stdin := rest\<rparr>))"
proof -
  let ?s0 = "print (replicate 30 CHR ''='') s"
  have s0: "same_objects s ?s0" "stdin ?s0 = stdin s" "get_location p ?s0 = Some l"
    using loc by (simp_all add: same_objects_def print_def get_location_def)
  let ?s1 = "prints [''Location: '' @ c_name ?s0 l, c_description ?s0 l] ?s0"
  have pl: "print_location p ?s0 = Inr ?s1" using print_location_eq [OF s0(3)] .
  let ?s1' = "print [] ?s1"
  have s1: "same_objects s ?s1'" "stdin ?s1' = stdin s" "get_location p ?s1' = Some l"
    using loc by (simp_all add: same_objects_def print_def prints_def get_location_def)
  from print_and_get_actions_eq [OF s1(3)] obtain s2 where s2:
    "print_and_get_actions p ?s1' =
       Inr ([Quit, Inventory] @ map Take (get_items l ?s1') @ map Go (get_exits l ?s1'), s2)"
    "same_objects ?s1' s2" "stdin s2 = stdin ?s1'" by blast
  have acts': "[Quit, Inventory] @ map Take (get_items l ?s1') @ map Go (get_exits l ?s1') = acts"
    using same_objects_get_items [OF s1(1)] same_objects_get_exits [OF s1(1)] acts by simp
  let ?s3 = "prints [[], ''What would you like to do?''] s2"
  have s3: "same_objects s ?s3" "stdin ?s3 = stdin s"
    using same_objects_trans [OF same_objects_trans [OF s1(1) s2(2)] same_objects_prints] s2(3) s1(2)
    by (simp_all add: prints_def)
  let ?bad = "takeWhile (\<lambda>ln. \<not> accepted parse_int (length acts) ln) (stdin s)"
  let ?s4 = "?s3\<lparr>stdin := [], stdout := stdout ?s3 @ prompt_transcript (length acts) ?bad\<rparr>"
  have s4: "same_objects s ?s4" using s3(1) by (simp add: same_objects_def)
  have turn: "prompt_turn parse_int p s =
      (case prompt_select parse_int (length acts) ?s3 of
         Inl e \<Rightarrow> Inl e
       | Inr (action, s5) \<Rightarrow> prompt_dispatch parse_int p (acts ! nat (action - 1)) s5)"
    unfolding prompt_turn_def using pl s2(1) acts' by simp
  have "prompt_turn parse_int p s =
      (case dropWhile (\<lambda>ln. \<not> accepted parse_int (length acts) ln) (stdin s) of
         [] \<Rightarrow> Inl (EOFError, ?s4)
       | good # rest \<Rightarrow>
           prompt_dispatch parse_int p (acts ! nat (the (parse_int good) - 1)) (?s4\<lparr>stdin := rest\<rparr>))"
  proof (cases "dropWhile (\<lambda>ln. \<not> accepted parse_int (length acts) ln) (stdin s)")
    case Nil
    then show ?thesis
      unfolding turn prompt_select_run [OF s3(2)]
      by (simp del: dropWhile_eq_Nil_conv)
  next
    case (Cons good rest)
    then show ?thesis
      unfolding turn prompt_select_run [OF s3(2)]
      by (simp add: stdin_stdout_commute)
  qed
  with s4 show ?thesis by blast
qed


text \<open>
  Claim C3. Whatever function \<open>parse_int\<close> the builtin \<^verbatim>\<open>int\<close> is on lines, the
  selection loop of the main menu, for \<open>n\<close> actions, is determined by the lines on
  standard input: every line that is not accepted (\<^verbatim>\<open>int\<close> raises on it, or the
  integer is outside 1..\<open>n\<close>) is answered by the error message and a new
  prompt, and the first accepted line ends the loop with its number. So the number
  returned is always between 1 and \<open>n\<close>, and the only way the loop raises is the end of
  the input (\<^verbatim>\<open>EOFError\<close> from \<^verbatim>\<open>input\<close>), never a malformed line. The turn then
  dispatches entry number \<open>k\<close> of the action list, which is at index \<open>k - 1\<close>.
\<close>

theorem prompt_select_validates:
  "prompt_select parse_int n s =
     (case dropWhile (\<lambda>ln. \<not> accepted parse_int n ln) (stdin s) of
        [] \<Rightarrow>
          Inl (EOFError,
               s\<lparr>stdin := [],
                 stdout := stdout s @ prompt_transcript n (takeWhile (\<lambda>ln. \<not> accepted parse_int n ln) (stdin s))\<rparr>)
      | good # rest \<Rightarrow>
          Inr (the (parse_int good),
               s\<lparr>stdin := rest,
                 stdout := stdout s @ prompt_transcript n (takeWhile (\<lambda>ln. \<not> accepted parse_int n ln) (stdin s))\<rparr>)) \<and>
   (prompt_select parse_int n s = Inr (k, s') \<longrightarrow> 1 \<le> k \<and> k \<le> int n) \<and>
   (prompt_select parse_int n s = Inl (e, s') \<longrightarrow> e = EOFError \<and> stdin s' = []) \<and>
   (get_location p s = Some l \<and>
    acts = [Quit, Inventory] @ map Take (get_items l s) @ map Go (get_exits l s) \<longrightarrow>
    (\<exists>s1. same_objects s s1 \<and>
       prompt_turn parse_int p s =
         (case dropWhile (\<lambda>ln. \<not> accepted parse_int (length acts) ln) (stdin s) of
            [] \<Rightarrow> Inl (EOFError, s1)
          | good # rest \<Rightarrow>
              prompt_dispatch parse_int p (acts ! nat (the (parse_int good) - 1)) (s1\<lparr>stdin := rest\<rparr>))))"
  using prompt_select_run [OF refl, where parse_int = parse_int and n = n and s = s]
    prompt_select_Inr [OF refl, where parse_int = parse_int and n = n and s = s and k = k and s' = s']
    prompt_select_Inl [OF refl, where parse_int = parse_int and n = n and s = s and e = e and s' = s']
    prompt_turn_run [where parse_int = parse_int and p = p and s = s and l = l and acts = acts]
  by blast

lemma accepted_examples:
  "\<not> accepted py_int 5 ''0''" "\<not> accepted py_int 5 ''6''" "\<not> accepted py_int 5 ''abc''" "accepted py_int 5 ''3''"
  by (simp_all add: accepted_def py_int_examples)

theorem prompt_select_validates_witness:
  "prompt_select py_int 5 (add_item 5 7 (small_world [''0'', ''6'', ''abc'', ''3''])) =
     Inr (3, (add_item 5 7 (small_world [''0'', ''6'', ''abc'', ''3'']))
               \<lparr>stdin := [],
                 stdout := [''> '', prompt_invalid 5, ''> '', prompt_invalid 5,
                            ''> '', prompt_invalid 5, ''> '']\<rparr>) \<and>
   (1::int) \<le> 3 \<and> (3::int) \<le> int 5 \<and>
   get_location 10 (add_item 5 7 (small_world [''0'', ''6'', ''abc'', ''3''])) = Some 5 \<and>
   (\<exists>s1. prompt_turn py_int 10 (add_item 5 7 (small_world [''0'', ''6'', ''abc'', ''3''])) =
            prompt_dispatch py_int 10 (Take 2) s1) \<and>
   prompt_select py_int 5 (small_world [''abc'']) =
     Inl (EOFError, (small_world [''abc''])
                      \<lparr>stdin := [], stdout := [''> '', prompt_invalid 5, ''> '']\<rparr>) \<and>
   stdin ((small_world [''abc''])\<lparr>stdin := [], stdout := [''> '', prompt_invalid 5, ''> '']\<rparr>) = []"
proof -
  let ?w = "add_item 5 7 (small_world [''0'', ''6'', ''abc'', ''3''])"
  let ?w' = "?w\<lparr>stdin := [],
                 stdout := [''> '', prompt_invalid 5, ''> '', prompt_invalid 5,
                            ''> '', prompt_invalid 5, ''> '']\<rparr>"
  let ?acts = "[Quit, Inventory, Take 2, Take 7,
                Go \<lparr>e_to = 8, e_description = ''Go to the Hall.''\<rparr>]"
  note t = prompt_select_validates
    [where parse_int = py_int and n = 5 and s = ?w and k = 3 and s' = ?w' and p = 10 and l = 5
       and acts = ?acts]
  have w: "stdin ?w = [''0'', ''6'', ''abc'', ''3'']" "stdout ?w = []"
    "get_location 10 ?w = Some 5" "get_items 5 ?w = [2, 7]"
    "get_exits 5 ?w = [\<lparr>e_to = 8, e_description = ''Go to the Hall.''\<rparr>]"
    by (simp_all add: add_item_def small_world_def get_location_def get_items_def get_exits_def)
  have len: "length ?acts = 5" by simp
  have dw: "dropWhile (\<lambda>ln. \<not> accepted py_int 5 ln) [''0'', ''6'', ''abc'', ''3''] = [''3'']"
    "takeWhile (\<lambda>ln. \<not> accepted py_int 5 ln) [''0'', ''6'', ''abc'', ''3''] = [''0'', ''6'', ''abc'']"
    by (simp_all add: accepted_examples)
  have a: "prompt_select py_int 5 ?w = Inr (3, ?w')"
    using conjunct1 [OF t] unfolding w(1) dw
    by (simp add: w py_int_examples prompt_transcript_def)
  have r: "(1::int) \<le> 3 \<and> (3::int) \<le> int 5"
    by (rule mp [OF conjunct1 [OF conjunct2 [OF t]]]) (rule a)
  have "\<exists>s1. same_objects ?w s1 \<and>
       prompt_turn py_int 10 ?w =
         (case dropWhile (\<lambda>ln. \<not> accepted py_int (length ?acts) ln) (stdin ?w) of
            [] \<Rightarrow> Inl (EOFError, s1)
          | good # rest \<Rightarrow>
              prompt_dispatch py_int 10 (?acts ! nat (the (py_int good) - 1)) (s1\<lparr>stdin := rest\<rparr>))"
    by (rule mp [OF conjunct2 [OF conjunct2 [OF conjunct2 [OF t]]]]) (simp add: w)
  then obtain s1 where "prompt_turn py_int 10 ?w =
         (case dropWhile (\<lambda>ln. \<not> accepted py_int (length ?acts) ln) (stdin ?w) of
            [] \<Rightarrow> Inl (EOFError, s1)
          | good # rest \<Rightarrow>
              prompt_dispatch py_int 10 (?acts ! nat (the (py_int good) - 1)) (s1\<lparr>stdin := rest\<rparr>))"
    by blast
  then have "prompt_turn py_int 10 ?w =
      prompt_dispatch py_int 10 (?acts ! nat (the (py_int ''3'') - 1)) (s1\<lparr>stdin := []\<rparr>)"
    by (simp only: len w(1) dw list.case)
  then have "prompt_turn py_int 10 ?w = prompt_dispatch py_int 10 (Take 2) (s1\<lparr>stdin := []\<rparr>)"
    by (simp add: py_int_examples)
  then have b: "\<exists>s1. prompt_turn py_int 10 ?w = prompt_dispatch py_int 10 (Take 2) s1" by blast
  let ?v = "small_world [''abc'']"
  let ?v' = "?v\<lparr>stdin := [], stdout := [''> '', prompt_invalid 5, ''> '']\<rparr>"
  note u = prompt_select_validates
    [where parse_int = py_int and n = 5 and s = ?v and e = EOFError and s' = ?v']
  have v: "stdin ?v = [''abc'']" "stdout ?v = []" by (simp_all add: small_world_def)
  have c: "prompt_select py_int 5 ?v = Inl (EOFError, ?v')"
    using conjunct1 [OF u]
    by (simp add: v accepted_examples prompt_transcript_def del: dropWhile_eq_Nil_conv)
  have d: "EOFError = EOFError \<and> stdin ?v' = []"
    by (rule mp [OF conjunct1 [OF conjunct2 [OF conjunct2 [OF u]]]]) (rule c)
  from a r b w(3) c d show ?thesis by simp
qed


section \<open>Taking and using items\<close>

lemma list_remove_set:
  "list_remove x xs = Some ys \<Longrightarrow> (x \<in> set ys) = (count_list xs x \<noteq> 1)"
  by (induction xs arbitrary: ys) (auto simp: count_list_0_iff split: if_splits)

lemma list_remove_Some: "x \<in> set xs \<Longrightarrow> \<exists>ys. list_remove x xs = Some ys"
  by (simp add: list_remove_remove1)

lemmas world_ops = Let_def print_def prints_def get_location_def remove_item_def add_item_def
  set_virtual_location_def get_virtual_location_def get_use_def get_items_def small_world_def

text \<open>
  Claim C1, as amended. With the player at location \<open>l\<close> and the item in the item list
  of \<open>l\<close>, the take branch returns; afterwards the item is in the player's list and the
  virtual location of its use is the player. The item is gone from the list of \<open>l\<close>
  exactly when it occurred there once and the list of \<open>l\<close> is not the very list object
  the player holds: \<^verbatim>\<open>list.remove\<close> deletes one occurrence, the first.
\<close>

theorem take_moves_item:
  assumes "get_location p s = Some l" and "item \<in> set (get_items l s)"
  shows "\<exists>s'. prompt_dispatch parse_int p (Take item) s = Inr s' \<and>
           item \<in> set (get_items p s') \<and>
           get_virtual_location (get_use item s') s' = Some p \<and>
           (item \<notin> set (get_items l s') \<longleftrightarrow>
              count_list (get_items l s) item = 1 \<and> c_items s l \<noteq> c_items s p)"
proof -
  from list_remove_Some [of item "item_lists s (c_items s l)"] assms(2)
  obtain ys where ys: "list_remove item (item_lists s (c_items s l)) = Some ys"
    by (auto simp: get_items_def)
  from list_remove_set [OF ys]
  have mem: "(item \<in> set ys) = (count_list (get_items l s) item \<noteq> 1)"
    by (simp add: get_items_def)
  show ?thesis
    using assms(1) ys mem
    by (auto simp: Let_def print_def get_location_def remove_item_def add_item_def
        set_virtual_location_def get_virtual_location_def get_use_def get_items_def)
qed


theorem take_moves_item_witness:
  "get_location 10 (small_world []) = Some 5 \<and> 2 \<in> set (get_items 5 (small_world [])) \<and>
   (\<exists>s'. prompt_dispatch py_int 10 (Take 2) (small_world []) = Inr s' \<and>
      2 \<in> set (get_items 10 s') \<and>
      get_virtual_location (get_use 2 s') s' = Some 10 \<and>
      2 \<notin> set (get_items 5 s'))"
proof -
  have a: "get_location 10 (small_world []) = Some 5" "2 \<in> set (get_items 5 (small_world []))"
    by (simp_all add: world_ops)
  have b: "count_list (get_items 5 (small_world [])) 2 = 1"
    "c_items (small_world []) 5 \<noteq> c_items (small_world []) 10"
    by (simp_all add: world_ops)
  from take_moves_item [OF a] b a show ?thesis by auto
qed

text \<open>
  The claim as stated fails for a lounge whose list holds the crown twice, which
  \<^verbatim>\<open>add_item\<close> and the constructors allow: after the take the crown is still listed
  in the lounge.
\<close>

theorem take_duplicate_counterexample:
  "get_location 10 (add_item 5 2 (small_world [])) = Some 5 \<and>
   2 \<in> set (get_items 5 (add_item 5 2 (small_world []))) \<and>
   prompt_dispatch py_int 10 (Take 2) (add_item 5 2 (small_world [])) =
     Inr (set_virtual_location 1 10 (add_item 10 2 (remove_item 5 2
            (print ''You take the Crown.'' (add_item 5 2 (small_world [])))))) \<and>
   2 \<in> set (get_items 5 (set_virtual_location 1 10 (add_item 10 2 (remove_item 5 2
            (print ''You take the Crown.'' (add_item 5 2 (small_world [])))))))"
  by (simp add: world_ops)

text \<open>
  Claim C5, as amended. For a use with \<^verbatim>\<open>destroy_on_execute\<close>, an owner and a bound
  item, \<^verbatim>\<open>execute\<close> first removes the first occurrence of the item from the owner's
  list and then calls the effect, which sees and prints against the store after the
  removal; at that moment the item is absent from the owner's list exactly when it
  occurred there at most once. Without \<^verbatim>\<open>destroy_on_execute\<close> the effect runs on the
  store as it is and no list changes.
\<close>

theorem execute_destroys_first:
  "(u_destroy_on_execute s u \<and> get_virtual_location u s = Some c \<and> u_item s u = Some item \<longrightarrow>
      execute u s = Inr (call_execute u (remove_item c item s)) \<and>
      stdout (call_execute u (remove_item c item s)) =
        stdout s @ u_execute s u (item_lists (remove_item c item s)) \<and>
      get_items c (call_execute u (remove_item c item s)) = get_items c (remove_item c item s) \<and>
      (item \<notin> set (get_items c (remove_item c item s)) \<longleftrightarrow>
         count_list (get_items c s) item \<le> 1)) \<and>
   (\<not> u_destroy_on_execute s u \<longrightarrow>
      execute u s = Inr (call_execute u s) \<and>
      item_lists (call_execute u s) = item_lists s \<and>
      stdout (call_execute u s) = stdout s @ u_execute s u (item_lists s))"
proof -
  have "item \<notin> set (get_items c (remove_item c item s)) \<longleftrightarrow>
          count_list (get_items c s) item \<le> 1"
  proof (cases "list_remove item (item_lists s (c_items s c))")
    case None
    then have "item \<notin> set (item_lists s (c_items s c))"
      by (simp add: list_remove_remove1 split: if_splits)
    with None show ?thesis
      by (simp add: remove_item_def get_items_def count_list_0_iff [THEN iffD2])
  next
    case (Some ys)
    then have "item \<in> set (item_lists s (c_items s c))"
      by (simp add: list_remove_remove1 split: if_splits)
    then have "count_list (item_lists s (c_items s c)) item \<noteq> 0"
      by (simp add: count_list_0_iff)
    with list_remove_set [OF Some] Some show ?thesis
      by (auto simp: remove_item_def get_items_def)
  qed
  then show ?thesis
    by (auto simp: execute_def destroy_def call_execute_def prints_def remove_item_def
        get_items_def split: option.splits)
qed


theorem execute_destroys_first_witness:
  "(u_destroy_on_execute (set_virtual_location 1 10 (add_item 10 2 (small_world []))) 1 \<and>
    get_virtual_location 1 (set_virtual_location 1 10 (add_item 10 2 (small_world []))) = Some 10 \<and>
    u_item (set_virtual_location 1 10 (add_item 10 2 (small_world []))) 1 = Some 2 \<and>
    execute 1 (set_virtual_location 1 10 (add_item 10 2 (small_world []))) =
      Inr (call_execute 1 (remove_item 10 2
             (set_virtual_location 1 10 (add_item 10 2 (small_world []))))) \<and>
    2 \<notin> set (get_items 10 (remove_item 10 2
             (set_virtual_location 1 10 (add_item 10 2 (small_world [])))))) \<and>
   (\<not> u_destroy_on_execute ((small_world [])\<lparr>u_destroy_on_execute := (\<lambda>_. False)\<rparr>) 1 \<and>
    execute 1 ((small_world [])\<lparr>u_destroy_on_execute := (\<lambda>_. False)\<rparr>) =
      Inr (call_execute 1 ((small_world [])\<lparr>u_destroy_on_execute := (\<lambda>_. False)\<rparr>)))"
proof -
  let ?w = "set_virtual_location 1 10 (add_item 10 2 (small_world []))"
  let ?v = "(small_world [])\<lparr>u_destroy_on_execute := (\<lambda>_. False)\<rparr>"
  have a: "u_destroy_on_execute ?w 1 \<and> get_virtual_location 1 ?w = Some 10 \<and> u_item ?w 1 = Some 2"
    by (simp add: world_ops)
  have c: "count_list (get_items 10 ?w) 2 \<le> 1" by (simp add: world_ops)
  note t = execute_destroys_first [where s = ?w and u = 1 and c = 10 and item = 2]
  note t1 = mp [OF conjunct1 [OF t] a]
  have b: "2 \<notin> set (get_items 10 (remove_item 10 2 ?w))"
    using conjunct2 [OF conjunct2 [OF conjunct2 [OF t1]]] c by simp
  have d: "\<not> u_destroy_on_execute ?v 1" by simp
  note u = mp [OF conjunct2 [OF execute_destroys_first [where s = ?v and u = 1]] d]
  from a conjunct1 [OF t1] b d conjunct1 [OF u] show ?thesis by simp
qed

text \<open>
  The claim as stated fails for a player who holds the crown twice (taken twice from a
  lounge listing it twice): when the effect runs, one crown is still in the inventory.
\<close>

theorem execute_duplicate_counterexample:
  "u_destroy_on_execute (set_virtual_location 1 10 (add_item 10 2 (add_item 10 2 (small_world [])))) 1 \<and>
   get_virtual_location 1 (set_virtual_location 1 10 (add_item 10 2 (add_item 10 2 (small_world []))))
     = Some 10 \<and>
   u_item (set_virtual_location 1 10 (add_item 10 2 (add_item 10 2 (small_world [])))) 1 = Some 2 \<and>
   execute 1 (set_virtual_location 1 10 (add_item 10 2 (add_item 10 2 (small_world [])))) =
     Inr (call_execute 1 (remove_item 10 2
            (set_virtual_location 1 10 (add_item 10 2 (add_item 10 2 (small_world [])))))) \<and>
   2 \<in> set (get_items 10 (remove_item 10 2
            (set_virtual_location 1 10 (add_item 10 2 (add_item 10 2 (small_world []))))))"
  by (simp add: world_ops execute_def destroy_def)


section \<open>The inventory menu\<close>

lemma enter_inventory_select_Nil:
  "stdin s = [] \<Longrightarrow> enter_inventory_select parse_int p s = Inl (EOFError, print ''> '' s)"
  by (subst enter_inventory_select.simps) (simp add: input_def)

lemma enter_inventory_select_Cons:
  "stdin s = ln # rest \<Longrightarrow>
   enter_inventory_select parse_int p s =
     (if accepted parse_int (length (get_items p s) + 1) ln
      then Inr (the (parse_int ln), (print ''> '' s)\<lparr>stdin := rest\<rparr>)
      else enter_inventory_select parse_int p
             (print (inventory_invalid (length (get_items p s))) ((print ''> '' s)\<lparr>stdin := rest\<rparr>)))"
  by (subst enter_inventory_select.simps)
     (auto simp add: input_def accepted_def inventory_invalid_def print_def get_items_def
        split: option.splits)

lemma enter_inventory_select_run:
  "stdin s = ls \<Longrightarrow> length (get_items p s) = n \<Longrightarrow>
   enter_inventory_select parse_int p s =
     (case dropWhile (\<lambda>ln. \<not> accepted parse_int (n + 1) ln) ls of
        [] \<Rightarrow>
          Inl (EOFError,
               s\<lparr>stdin := [],
                 stdout := stdout s @ inventory_transcript n (takeWhile (\<lambda>ln. \<not> accepted parse_int (n + 1) ln) ls)\<rparr>)
      | good # rest \<Rightarrow>
          Inr (the (parse_int good),
               s\<lparr>stdin := rest,
                 stdout := stdout s @ inventory_transcript n (takeWhile (\<lambda>ln. \<not> accepted parse_int (n + 1) ln) ls)\<rparr>))"
proof (induction ls arbitrary: s)
  case Nil
  then show ?case by (simp add: enter_inventory_select_Nil print_def inventory_transcript_def)
next
  case (Cons ln rest)
  show ?case
  proof (cases "accepted parse_int (n + 1) ln")
    case True
    with Cons.prems show ?thesis
      by (simp add: enter_inventory_select_Cons print_def inventory_transcript_def)
  next
    case False
    let ?s2 = "print (inventory_invalid n) ((print ''> '' s)\<lparr>stdin := rest\<rparr>)"
    have s2: "stdin ?s2 = rest" "length (get_items p ?s2) = n"
      using Cons.prems by (simp_all add: print_def get_items_def)
    from False Cons.prems have "enter_inventory_select parse_int p s = enter_inventory_select parse_int p ?s2"
      by (simp add: enter_inventory_select_Cons)
    also note Cons.IH [OF s2]
    finally have eq: "enter_inventory_select parse_int p s =
      (case dropWhile (\<lambda>ln. \<not> accepted parse_int (n + 1) ln) rest of
         [] \<Rightarrow>
           Inl (EOFError,
                ?s2\<lparr>stdin := [],
                  stdout := stdout ?s2 @ inventory_transcript n (takeWhile (\<lambda>ln. \<not> accepted parse_int (n + 1) ln) rest)\<rparr>)
       | good # rest' \<Rightarrow>
           Inr (the (parse_int good),
                ?s2\<lparr>stdin := rest',
                  stdout := stdout ?s2 @ inventory_transcript n (takeWhile (\<lambda>ln. \<not> accepted parse_int (n + 1) ln) rest)\<rparr>))" .
    show ?thesis
    proof (cases "dropWhile (\<lambda>ln. \<not> accepted parse_int (n + 1) ln) rest")
      case Nil
      with eq False show ?thesis
        by (simp add: print_def inventory_transcript_def del: dropWhile_eq_Nil_conv)
    next
      case (Cons good rest')
      with eq False show ?thesis by (simp add: print_def inventory_transcript_def)
    qed
  qed
qed

lemma dropWhile_accepted:
  "dropWhile (\<lambda>ln. \<not> accepted parse_int n ln) ls = good # rest \<Longrightarrow>
   (\<exists>k. parse_int good = Some k \<and> 1 \<le> k \<and> k \<le> int n) \<and> length rest < length ls"
proof -
  assume a: "dropWhile (\<lambda>ln. \<not> accepted parse_int n ln) ls = good # rest"
  have "accepted parse_int n good" using hd_dropWhile [of "\<lambda>ln. \<not> accepted parse_int n ln" ls] a by simp
  moreover have "length (dropWhile (\<lambda>ln. \<not> accepted parse_int n ln) ls) \<le> length ls"
    by (rule length_dropWhile_le)
  ultimately show ?thesis using a by (auto simp: accepted_def split: option.splits)
qed

lemma print_inventory_entries_same:
  "same_objects s (print_inventory_entries i xs s) \<and> stdin (print_inventory_entries i xs s) = stdin s"
proof (induction xs arbitrary: i s)
  case Nil
  show ?case by (simp add: same_objects_refl)
next
  case (Cons x xs)
  let ?s1 = "prints [''  ('' @ str_nat (i + 2) @ '') '' @ i_name s x, ''    '' @ i_description s x,
                ''    '' @ u_description s (get_use x s)] s"
  note ih = Cons.IH [where i = "Suc i" and s = ?s1]
  have "same_objects s (print_inventory_entries (Suc i) xs ?s1)"
    using same_objects_trans [OF same_objects_prints conjunct1 [OF ih]] .
  with conjunct2 [OF ih] show ?case by (simp add: prints_def)
qed

lemma destroy_frame:
  "p_location (final (destroy u s)) = p_location s \<and>
   u_virtual_location (final (destroy u s)) = u_virtual_location s \<and>
   i_use (final (destroy u s)) = i_use s \<and>
   stdin (final (destroy u s)) = stdin s"
  by (simp add: final_def destroy_def remove_item_def split: option.splits)

lemma execute_frame:
  "p_location (final (execute u s)) = p_location s \<and>
   u_virtual_location (final (execute u s)) = u_virtual_location s \<and>
   i_use (final (execute u s)) = i_use s \<and>
   stdin (final (execute u s)) = stdin s"
  by (simp add: final_def execute_def destroy_def remove_item_def call_execute_def prints_def
      split: option.splits)

lemma inventory_shown_same:
  "same_objects s (inventory_shown p s)" "stdin (inventory_shown p s) = stdin s"
proof -
  let ?s1 = "prints [''Inventory:'', ''  (1) Close inventory.''] s"
  note a = print_inventory_entries_same [of ?s1 0 "get_items p ?s1"]
  show "same_objects s (inventory_shown p s)"
    unfolding inventory_shown_def
    using same_objects_trans [OF same_objects_trans [OF same_objects_prints conjunct1 [OF a]]
        same_objects_print] .
  show "stdin (inventory_shown p s) = stdin s"
    unfolding inventory_shown_def using conjunct2 [OF a] by (simp add: print_def prints_def)
qed

lemma enter_inventory_run:
  assumes "length (get_items p s) = n"
  shows "enter_inventory parse_int p s =
     (case dropWhile (\<lambda>ln. \<not> accepted parse_int (n + 1) ln) (stdin s) of
        [] \<Rightarrow>
          Inl (EOFError,
               (inventory_shown p s)\<lparr>stdin := [],
                 stdout := stdout (inventory_shown p s) @
                   inventory_transcript n (takeWhile (\<lambda>ln. \<not> accepted parse_int (n + 1) ln) (stdin s))\<rparr>)
      | good # rest \<Rightarrow>
          (let s4 = (inventory_shown p s)\<lparr>stdin := rest,
                 stdout := stdout (inventory_shown p s) @
                   inventory_transcript n (takeWhile (\<lambda>ln. \<not> accepted parse_int (n + 1) ln) (stdin s))\<rparr>
           in if the (parse_int good) = 1 then Inr s4
              else execute (get_use (get_items p s ! nat (the (parse_int good) - 2)) s)
                     (print (str_int (the (parse_int good))) s4)))"
proof -
  have len: "length (get_items p (inventory_shown p s)) = n"
    using same_objects_get_items [OF inventory_shown_same(1)] assms by simp
  note run = enter_inventory_select_run [OF inventory_shown_same(2) len]
  have eq: "enter_inventory parse_int p s =
      (case enter_inventory_select parse_int p (inventory_shown p s) of
         Inl e \<Rightarrow> Inl e
       | Inr (choice, s4) \<Rightarrow>
           if choice = 1 then Inr s4
           else
             (let s5 = print (str_int choice) s4
              in execute (get_use (get_items p s5 ! nat (choice - 2)) s5) s5))"
    by (simp add: enter_inventory_def inventory_shown_def Let_def)
  have so: "same_objects s (inventory_shown p s)" by (rule inventory_shown_same)
  show ?thesis
  proof (cases "dropWhile (\<lambda>ln. \<not> accepted parse_int (n + 1) ln) (stdin s)")
    case Nil
    then show ?thesis unfolding eq run by (simp del: dropWhile_eq_Nil_conv)
  next
    case (Cons good rest)
    then show ?thesis unfolding eq run
      using so by (simp add: Let_def get_items_def get_use_def print_def same_objects_def)
  qed
qed

lemma enter_inventory_frame:
  "p_location (final (enter_inventory parse_int p s)) = p_location s \<and>
   u_virtual_location (final (enter_inventory parse_int p s)) = u_virtual_location s \<and>
   i_use (final (enter_inventory parse_int p s)) = i_use s \<and>
   length (stdin (final (enter_inventory parse_int p s))) \<le> length (stdin s)"
proof -
  let ?n = "length (get_items p s)"
  let ?P = "\<lambda>ln. \<not> accepted parse_int (?n + 1) ln"
  note so = inventory_shown_same [where s = s and p = p]
  have f: "p_location (inventory_shown p s) = p_location s"
    "u_virtual_location (inventory_shown p s) = u_virtual_location s"
    "i_use (inventory_shown p s) = i_use s"
    using so(1) by (simp_all add: same_objects_def)
  show ?thesis
  proof (cases "dropWhile ?P (stdin s)")
    case Nil
    then show ?thesis
      unfolding enter_inventory_run [OF refl]
      by (simp add: final_def f del: dropWhile_eq_Nil_conv)
  next
    case (Cons good rest)
    have "length rest < length (stdin s)" using dropWhile_accepted [OF Cons] by simp
    with Cons show ?thesis
      unfolding enter_inventory_run [OF refl]
      by (simp add: Let_def execute_frame f print_def) (simp add: final_def f)
  qed
qed

text \<open>
  Claim C8. The inventory action leaves the player's location as it was, whether the
  menu returns or an exception leaves it. When the line accepted by the inventory menu
  (the first on which \<^verbatim>\<open>int\<close>, here any function \<open>parse_int\<close>, gives a number from 1
  to the number of items plus 1) is 1 (close), \<^verbatim>\<open>enter_inventory\<close> returns and only the console has changed: every
  object of the store is as before, so the player's items, the items of every location
  and the virtual location of every use are unchanged.
\<close>

theorem inventory_keeps_location:
  "p_location (final (prompt_dispatch parse_int p Inventory s)) = p_location s \<and>
   (dropWhile (\<lambda>ln. \<not> accepted parse_int (length (get_items p s) + 1) ln) (stdin s) = good # rest \<and>
    parse_int good = Some 1 \<longrightarrow>
    (\<exists>s'. enter_inventory parse_int p s = Inr s' \<and> same_objects s s' \<and> stdin s' = rest \<and>
          get_items p s' = get_items p s \<and> get_items l s' = get_items l s \<and>
          u_virtual_location s' = u_virtual_location s \<and> p_location s' = p_location s))"
proof -
  have a: "p_location (final (prompt_dispatch parse_int p Inventory s)) = p_location s"
    using conjunct1 [OF enter_inventory_frame [where p = p and s = s]] by simp
  have b: "\<exists>s'. enter_inventory parse_int p s = Inr s' \<and> same_objects s s' \<and> stdin s' = rest \<and>
          get_items p s' = get_items p s \<and> get_items l s' = get_items l s \<and>
          u_virtual_location s' = u_virtual_location s \<and> p_location s' = p_location s"
    if h: "dropWhile (\<lambda>ln. \<not> accepted parse_int (length (get_items p s) + 1) ln) (stdin s) = good # rest"
      "parse_int good = Some 1"
  proof -
    let ?s4 = "(inventory_shown p s)\<lparr>stdin := rest,
                 stdout := stdout (inventory_shown p s) @
                   inventory_transcript (length (get_items p s))
                     (takeWhile (\<lambda>ln. \<not> accepted parse_int (length (get_items p s) + 1) ln) (stdin s))\<rparr>"
    have e: "enter_inventory parse_int p s = Inr ?s4"
      unfolding enter_inventory_run [OF refl] using h by (simp add: Let_def)
    have so: "same_objects s ?s4"
      using inventory_shown_same(1) [where s = s and p = p] by (simp add: same_objects_def)
    from e so same_objects_get_items [OF so] show ?thesis
      by (auto simp: same_objects_def)
  qed
  from a b show ?thesis by blast
qed


lemma accepted_inventory_examples:
  "\<not> accepted py_int 2 ''9''" "accepted py_int 2 ''1''" "\<not> accepted py_int 2 ''0''" "accepted py_int 2 ''2''"
  "py_int ''9'' = Some 9"
  by (simp_all add: accepted_def py_int_examples)
    (simp_all add: py_int_def strip_def is_space_def parse_nat_def is_digit_def digit_value_def
      int_max_str_digits_def)

theorem inventory_keeps_location_witness:
  "dropWhile (\<lambda>ln. \<not> accepted py_int (length (get_items 10 (add_item 10 2 (small_world [''9'', ''1'']))) + 1) ln)
     (stdin (add_item 10 2 (small_world [''9'', ''1'']))) = ''1'' # [] \<and>
   py_int ''1'' = Some 1 \<and>
   (\<exists>s'. enter_inventory py_int 10 (add_item 10 2 (small_world [''9'', ''1''])) = Inr s' \<and>
      stdin s' = [] \<and>
      get_items 10 s' = [2] \<and> get_items 5 s' = [2] \<and>
      u_virtual_location s' 1 = None \<and> p_location s' 10 = Some 5)"
proof -
  let ?w = "add_item 10 2 (small_world [''9'', ''1''])"
  have w: "length (get_items 10 ?w) + 1 = 2" "stdin ?w = [''9'', ''1'']"
    "get_items 10 ?w = [2]" "get_items 5 ?w = [2]" "u_virtual_location ?w 1 = None"
    "p_location ?w 10 = Some 5"
    by (simp_all add: world_ops)
  have a: "dropWhile (\<lambda>ln. \<not> accepted py_int (length (get_items 10 ?w) + 1) ln) (stdin ?w) = ''1'' # []"
    unfolding w(1,2) by (simp add: accepted_inventory_examples)
  note t = inventory_keeps_location
    [where parse_int = py_int and p = 10 and s = ?w and good = "''1''" and rest = "[]" and l = 5]
  have "\<exists>s'. enter_inventory py_int 10 ?w = Inr s' \<and> same_objects ?w s' \<and> stdin s' = [] \<and>
          get_items 10 s' = get_items 10 ?w \<and> get_items 5 s' = get_items 5 ?w \<and>
          u_virtual_location s' = u_virtual_location ?w \<and> p_location s' = p_location ?w"
    by (rule mp [OF conjunct2 [OF t]]) (simp only: a py_int_examples simp_thms)
  with a w show ?thesis by (auto simp: py_int_examples)
qed

text \<open>
  Claim C6. The inventory loop accepts exactly the numbers 1 to \<open>n + 1\<close> for a player
  holding \<open>n\<close> items and recovers from every other line (\<open>enter_inventory_select_run\<close>),
  but the message it prints names another range, 0 to \<open>n\<close>. Here the player holds one
  item: the line \<^verbatim>\<open>0\<close> is rejected with a message that asks for a number between 0 and
  1, and the line \<^verbatim>\<open>2\<close>, outside the range the message names, is accepted.
\<close>

theorem inventory_message_names_wrong_range:
  "enter_inventory_select py_int 10 (add_item 10 2 (small_world [''0'', ''2''])) =
     Inr (2, (add_item 10 2 (small_world [''0'', ''2'']))
               \<lparr>stdin := [],
                 stdout := [''> '', ''Invalid choice. Please enter a number between 0 and 1.'',
                            ''> '']\<rparr>)"
proof -
  let ?w = "add_item 10 2 (small_world [''0'', ''2''])"
  have w: "stdin ?w = [''0'', ''2'']" "length (get_items 10 ?w) = 1" "stdout ?w = []"
    by (simp_all add: world_ops)
  have m: "inventory_invalid (Suc 0) = ''Invalid choice. Please enter a number between 0 and 1.''"
    by (simp add: inventory_invalid_def str_nat.simps digit_char_def)
  have d: "dropWhile (\<lambda>ln. \<not> accepted py_int 2 ln) [''0'', ''2''] = [''2'']"
    "takeWhile (\<lambda>ln. \<not> accepted py_int 2 ln) [''0'', ''2''] = [''0'']"
    by (simp_all add: accepted_inventory_examples)
  show ?thesis
    unfolding enter_inventory_select_run [OF w(1) w(2)] one_add_one d
    by (simp add: w inventory_transcript_def m py_int_examples)
qed


lemma destroy_absent_inert:
  "get_virtual_location u s = Some c \<Longrightarrow> u_item s u = Some item \<Longrightarrow>
   item \<notin> set (get_items c s) \<Longrightarrow> destroy u s = Inr s"
  by (simp add: destroy_def remove_item_def get_items_def list_remove_absent)

text \<open>
  Claim C2. With an owner set and the item absent from the owner's list, \<^verbatim>\<open>destroy\<close>
  is inert (\<open>destroy_absent_inert\<close>). With no owner set it is not: \<^verbatim>\<open>destroy\<close> calls
  \<^verbatim>\<open>remove_item\<close> on \<^verbatim>\<open>None\<close> and raises \<^verbatim>\<open>AttributeError\<close>, which nothing catches.
  The crown of the small world has never been taken, so its use has no owner; for a
  player who holds it all the same (a \<^verbatim>\<open>Player\<close> constructed with the crown in its
  items, or after \<^verbatim>\<open>add_item\<close>), using it from the inventory ends the inventory menu
  with that exception.
\<close>

theorem destroy_without_owner_raises:
  "get_virtual_location 1 (small_world []) = None \<and>
   destroy 1 (small_world []) = Inl (AttributeError, small_world []) \<and>
   execute 1 (small_world []) = Inl (AttributeError, small_world []) \<and>
   get_virtual_location 1 (add_item 10 2 (small_world [''2''])) = None \<and>
   (\<exists>s'. enter_inventory py_int 10 (add_item 10 2 (small_world [''2''])) = Inl (AttributeError, s'))"
proof -
  let ?w = "add_item 10 2 (small_world [''2''])"
  have a: "get_virtual_location 1 (small_world []) = None \<and>
   destroy 1 (small_world []) = Inl (AttributeError, small_world []) \<and>
   execute 1 (small_world []) = Inl (AttributeError, small_world [])"
    by (simp add: execute_def destroy_def get_virtual_location_def small_world_def)
  have w: "stdin ?w = [''2'']" "length (get_items 10 ?w) = 1" "get_items 10 ?w = [2]"
    "i_use ?w 2 = Suc 0" "u_virtual_location ?w (Suc 0) = None" "u_destroy_on_execute ?w (Suc 0)"
    by (simp_all add: world_ops)
  have d: "dropWhile (\<lambda>ln. \<not> accepted py_int 2 ln) [''2''] = [''2'']"
    by (simp add: accepted_inventory_examples)
  note so = inventory_shown_same(1) [where s = ?w and p = 10, unfolded same_objects_def]
  have "\<exists>s'. enter_inventory py_int 10 ?w = Inl (AttributeError, s')"
    unfolding enter_inventory_run [OF w(2)] one_add_one w(1) d
    by (simp add: Let_def py_int_examples accepted_inventory_examples w so execute_def
        destroy_def get_virtual_location_def get_use_def print_def)
  with a w(5) show ?thesis by (simp add: get_virtual_location_def)
qed


section \<open>Rooms built with the default item list\<close>

lemma remove_item_get_items:
  "get_items c (remove_item c' x s) =
     (if c_items s c = c_items s c' then remove1 x (get_items c s) else get_items c s)"
  by (auto simp: remove_item_def get_items_def list_remove_remove1 remove1_idem)

text \<open>
  Claim C10. Two rooms constructed one after the other with the items argument omitted
  are two objects holding one and the same list, the default of \<^verbatim>\<open>Room.__init__\<close>.
  After \<^verbatim>\<open>add_item\<close> on the first, the item is in the items of both; \<^verbatim>\<open>remove_item\<close>
  on either removes from the items of both.
\<close>

theorem rooms_share_default_items:
  "(let (a, s1) = Room_init n1 d1 e1 None s;
        (b, s2) = Room_init n2 d2 e2 None s1;
        s3 = add_item a item s2
    in a \<noteq> b \<and>
       c_items s2 a = Room_default_items \<and> c_items s2 b = Room_default_items \<and>
       get_items b s3 = get_items b s2 @ [item] \<and> get_items a s3 = get_items b s3 \<and>
       item \<in> set (get_items a s3) \<and> item \<in> set (get_items b s3) \<and>
       get_items a (remove_item b x s3) = remove1 x (get_items a s3) \<and>
       get_items b (remove_item b x s3) = remove1 x (get_items b s3) \<and>
       get_items a (remove_item a x s3) = remove1 x (get_items a s3) \<and>
       get_items b (remove_item a x s3) = remove1 x (get_items b s3))"
  by (simp add: remove_item_get_items)
     (simp add: Room_init_def Location_init_def Container_init_def add_item_def get_items_def
        Let_def)


section \<open>Who sets the virtual location\<close>

lemma prompt_dispatch_owner:
  "u_virtual_location (final (prompt_dispatch parse_int p a s)) =
     (case a of
        Take item \<Rightarrow>
          (case get_location p s of
             None \<Rightarrow> u_virtual_location s
           | Some l \<Rightarrow> (u_virtual_location s)(get_use item s := Some p))
      | _ \<Rightarrow> u_virtual_location s)"
proof (cases a)
  case Quit
  then show ?thesis by (simp add: final_def print_def)
next
  case Inventory
  then show ?thesis using enter_inventory_frame [where p = p and s = s] by simp
next
  case (Take item)
  then show ?thesis
    by (simp add: final_def world_ops split: option.splits)
next
  case (Go ex)
  then show ?thesis by (simp add: final_def print_def set_location_def)
qed

text \<open>
  Claim C9, as amended. A new \<^verbatim>\<open>ItemUse\<close> has no virtual location; constructing an
  item with it (\<^verbatim>\<open>Item\<close>, \<^verbatim>\<open>Fruit\<close>) binds the use and leaves every virtual location
  as it is; so do the constructors of lists, containers, locations, rooms and players,
  \<^verbatim>\<open>add_item\<close>, \<^verbatim>\<open>remove_item\<close>, \<^verbatim>\<open>destroy\<close>, \<^verbatim>\<open>execute\<close> and the inventory menu.
  Among the actions of a turn only the take branch changes a virtual location: that of
  the use of the item taken, to the player. So the virtual location of a use stays as it
  was built, unset, as long as no item bound to that use has been taken.
\<close>

theorem owner_set_only_by_take:
  "get_virtual_location (fst (ItemUse_init un ud ue ub s)) (snd (ItemUse_init un ud ue ub s)) = None \<and>
   u_virtual_location (snd (Item_init iname idesc u s)) = u_virtual_location s \<and>
   get_use (fst (Item_init iname idesc u s)) (snd (Item_init iname idesc u s)) = u \<and>
   get_virtual_location (get_use (fst (Fruit_init fname s)) (snd (Fruit_init fname s)))
     (snd (Fruit_init fname s)) = None \<and>
   u_virtual_location (snd (new_item_list xs s)) = u_virtual_location s \<and>
   u_virtual_location (snd (Container_init cn cd r s)) = u_virtual_location s \<and>
   u_virtual_location (snd (Location_init cn cd re r s)) = u_virtual_location s \<and>
   u_virtual_location (snd (Room_init cn cd re ro s)) = u_virtual_location s \<and>
   u_virtual_location (snd (Player_init cn cd r s)) = u_virtual_location s \<and>
   u_virtual_location (add_item c item s) = u_virtual_location s \<and>
   u_virtual_location (remove_item c item s) = u_virtual_location s \<and>
   u_virtual_location (final (destroy u s)) = u_virtual_location s \<and>
   u_virtual_location (final (execute u s)) = u_virtual_location s \<and>
   u_virtual_location (final (enter_inventory parse_int p s)) = u_virtual_location s \<and>
   (u_virtual_location (final (prompt_dispatch parse_int p a s)) u' \<noteq> u_virtual_location s u' \<longrightarrow>
      (\<exists>taken. a = Take taken \<and> u' = get_use taken s \<and>
         u_virtual_location (final (prompt_dispatch parse_int p a s)) u' = Some p))"
proof -
  have ctor: "get_virtual_location (fst (ItemUse_init un ud ue ub s)) (snd (ItemUse_init un ud ue ub s)) = None"
    "u_virtual_location (snd (Item_init iname idesc u s)) = u_virtual_location s"
    "get_use (fst (Item_init iname idesc u s)) (snd (Item_init iname idesc u s)) = u"
    "get_virtual_location (get_use (fst (Fruit_init fname s)) (snd (Fruit_init fname s)))
       (snd (Fruit_init fname s)) = None"
    "u_virtual_location (snd (new_item_list xs s)) = u_virtual_location s"
    "u_virtual_location (snd (Container_init cn cd r s)) = u_virtual_location s"
    "u_virtual_location (snd (Location_init cn cd re r s)) = u_virtual_location s"
    "u_virtual_location (snd (Room_init cn cd re ro s)) = u_virtual_location s"
    "u_virtual_location (snd (Player_init cn cd r s)) = u_virtual_location s"
    by (simp_all add: ItemUse_init_def Item_init_def Fruit_init_def new_item_list_def
        Container_init_def Location_init_def Room_init_def Player_init_def set_item_def
        get_virtual_location_def get_use_def Let_def)
  have ops: "u_virtual_location (add_item c item s) = u_virtual_location s"
    "u_virtual_location (remove_item c item s) = u_virtual_location s"
    by (simp_all add: add_item_def remove_item_def split: option.splits)
  have disp: "u_virtual_location (final (prompt_dispatch parse_int p a s)) u' \<noteq> u_virtual_location s u' \<longrightarrow>
      (\<exists>taken. a = Take taken \<and> u' = get_use taken s \<and>
         u_virtual_location (final (prompt_dispatch parse_int p a s)) u' = Some p)"
    unfolding prompt_dispatch_owner
    by (cases a) (auto split: option.splits if_splits)
  from ctor ops disp destroy_frame [where u = u and s = s] execute_frame [where u = u and s = s]
    enter_inventory_frame [where p = p and s = s]
  show ?thesis by simp
qed


theorem owner_set_only_by_take_witness:
  "u_virtual_location (final (prompt_dispatch py_int 10 (Take 2) (small_world []))) 1 \<noteq>
     u_virtual_location (small_world []) 1 \<and>
   (\<exists>taken. Take 2 = Take taken \<and> 1 = get_use taken (small_world []) \<and>
      u_virtual_location (final (prompt_dispatch py_int 10 (Take 2) (small_world []))) 1 = Some 10)"
proof -
  have a: "u_virtual_location (final (prompt_dispatch py_int 10 (Take 2) (small_world []))) 1 \<noteq>
     u_virtual_location (small_world []) 1"
    by (simp add: final_def world_ops)
  note t = owner_set_only_by_take
    [where parse_int = py_int and p = 10 and a = "Take 2" and s = "small_world []" and u' = 1]
  have b: "\<exists>taken. Take 2 = Take taken \<and> 1 = get_use taken (small_world []) \<and>
      u_virtual_location (final (prompt_dispatch py_int 10 (Take 2) (small_world []))) 1 = Some 10"
    by (rule mp [OF conjunct2 [OF conjunct2 [OF conjunct2 [OF conjunct2 [OF conjunct2
        [OF conjunct2 [OF conjunct2 [OF conjunct2 [OF conjunct2 [OF conjunct2 [OF conjunct2
        [OF conjunct2 [OF conjunct2 [OF conjunct2 [OF t]]]]]]]]]]]]]]]) (rule a)
  show ?thesis by (rule conjI [OF a b])
qed

text \<open>
  The claim as stated ends with: every item still lying in its original location has an
  unset virtual location. That fails for a lounge listing the crown twice: built with
  constructors and \<^verbatim>\<open>add_item\<close> only, the crown's use has no virtual location; after
  one take the crown still lies in the lounge and the virtual location of its use is
  the player.
\<close>

theorem lying_item_with_owner_counterexample:
  "get_location 10 (add_item 5 2 (small_world [])) = Some 5 \<and>
   get_items 5 (add_item 5 2 (small_world [])) = [2, 2] \<and>
   get_virtual_location (get_use 2 (add_item 5 2 (small_world []))) (add_item 5 2 (small_world []))
     = None \<and>
   get_items 5 (final (prompt_dispatch py_int 10 (Take 2) (add_item 5 2 (small_world [])))) = [2] \<and>
   get_virtual_location
     (get_use 2 (final (prompt_dispatch py_int 10 (Take 2) (add_item 5 2 (small_world [])))))
     (final (prompt_dispatch py_int 10 (Take 2) (add_item 5 2 (small_world [])))) = Some 10"
  by (simp add: final_def world_ops)


section \<open>The game loop\<close>

lemma prompt_dispatch_stdin:
  "length (stdin (final (prompt_dispatch parse_int p a s))) \<le> length (stdin s)"
proof (cases a)
  case Quit
  then show ?thesis by (simp add: final_def print_def)
next
  case Inventory
  then show ?thesis using enter_inventory_frame [where p = p and s = s] by simp
next
  case (Take item)
  then show ?thesis by (simp add: final_def world_ops split: option.splits)
next
  case (Go ex)
  then show ?thesis by (simp add: final_def print_def set_location_def)
qed

lemma prompt_turn_consumes:
  assumes "prompt_turn parse_int p s = Inr s'"
  shows "length (stdin s') < length (stdin s)"
proof (cases "get_location p s")
  case None
  then have "print_location p (print (replicate 30 CHR ''='') s) =
      Inl (AttributeError, print (replicate 30 CHR ''='') s)"
    by (simp add: print_location_def get_location_def print_def)
  with assms show ?thesis by (simp add: prompt_turn_def)
next
  case (Some l)
  let ?acts = "[Quit, Inventory] @ map Take (get_items l s) @ map Go (get_exits l s)"
  from prompt_turn_run [OF Some refl] obtain s1 where s1:
    "prompt_turn parse_int p s =
       (case dropWhile (\<lambda>ln. \<not> accepted parse_int (length ?acts) ln) (stdin s) of
          [] \<Rightarrow> Inl (EOFError, s1)
        | good # rest \<Rightarrow>
            prompt_dispatch parse_int p (?acts ! nat (the (parse_int good) - 1)) (s1\<lparr>stdin := rest\<rparr>))"
    by blast
  show ?thesis
  proof (cases "dropWhile (\<lambda>ln. \<not> accepted parse_int (length ?acts) ln) (stdin s)")
    case Nil
    with s1 assms show ?thesis by (simp del: dropWhile_eq_Nil_conv)
  next
    case (Cons good rest)
    let ?a = "?acts ! nat (the (parse_int good) - 1)"
    from s1 Cons assms have "prompt_dispatch parse_int p ?a (s1\<lparr>stdin := rest\<rparr>) = Inr s'"
      by (simp del: dropWhile_eq_Nil_conv)
    with prompt_dispatch_stdin
      [where parse_int = parse_int and p = p and a = ?a and s = "s1\<lparr>stdin := rest\<rparr>"]
    have "length (stdin s') \<le> length rest" by (simp add: final_def)
    moreover have "length rest < length (stdin s)" using dropWhile_accepted [OF Cons] by simp
    ultimately show ?thesis by simp
  qed
qed

termination prompt
  by (relation "measure (\<lambda>(parse_int, p, s). length (stdin s))")
     (auto simp: prompt_turn_consumes)

declare prompt.simps [simp del]


text \<open>
  The scenario of the specification, played from the start: take the crown (3), go to
  the hall (3, the lounge being empty now), open the inventory (2), wear the crown (2),
  quit (1). The game ends with \<^verbatim>\<open>SystemExit\<close>; the player holds nothing and stands in
  the hall, the lounge is empty, and the crown's message was printed once.
\<close>

lemma end_to_end_scenario:
  "(case prompt py_int 10 (small_world [''3'', ''3'', ''2'', ''2'', ''1'']) of
      (e, s') \<Rightarrow> (e, get_items 10 s', get_items 5 s', get_location 10 s',
                   filter (\<lambda>l. l = ''You put the crown on your head.'') (stdout s')))
   = (SystemExit, [], [], Some 8, [''You put the crown on your head.''])"
proof -
  have r: "replicate 30 CHR ''='' \<noteq> ''You put the crown on your head.''"
    by (simp add: eval_nat_numeral)
  show ?thesis
    by (simp add: prompt.simps prompt_turn_def print_location_def print_and_get_actions_def
        prompt_select.simps enter_inventory_def enter_inventory_select.simps input_def
        execute_def destroy_def call_execute_def world_ops get_exits_def set_location_def
        str_nat.simps str_int_def digit_char_def r
        py_int_def strip_def is_space_def parse_nat_def is_digit_def digit_value_def
      int_max_str_digits_def)
qed


end
